theory Spec2Isabelle
  imports Complex_Main "HOL-Library.Sublist" "HOL-Library.AList" "HOL-Library.Countable"
begin

section \<open>Values, exceptions and the platform\<close>

text \<open>
  The palette catalog of \<^verbatim>\<open>src/lib/palette-storage.ts\<close> keeps its whole collection as
  one JSON text under one localStorage key. Every function reads that text with
  \<^verbatim>\<open>JSON.parse\<close>, and what it then handles is whatever value the text denotes: the
  TypeScript types are erased at run time. The model therefore works on JSON values, and
  a typed palette is a JSON value of a particular shape (see \<open>palette_json\<close> below).

  Numbers are the finite ones; of a number the program only observes whether it is zero
  (truthiness) and its string conversion. An object is the list of its own properties in
  insertion order.
\<close>

datatype json =
    JNull
  | JBool bool
  | JNum rat
  | JStr string
  | JArr "json list"
  | JObj "(string \<times> json) list"

text \<open>
  Thrown values. Every value thrown in this program is an instance of \<^verbatim>\<open>Error\<close>, of
  which the program reads only \<^verbatim>\<open>.message\<close>. The wording of the errors the engine
  itself raises (\<open>TypeError\<close>) differs between engines; the model writes one wording, and
  no statement below depends on it.
\<close>

datatype exn =
    TypeError string
  | SyntaxError string
  | Error string
  | StorageError string

fun message :: "exn \<Rightarrow> string" where
  "message (TypeError m) = m"
| "message (SyntaxError m) = m"
| "message (Error m) = m"
| "message (StorageError m) = m"

text \<open>Reading property \<open>k\<close> of \<^verbatim>\<open>null\<close> or \<^verbatim>\<open>undefined\<close>.\<close>

definition cannot_read :: "string \<Rightarrow> string \<Rightarrow> exn" where
  "cannot_read what k =
     TypeError (''Cannot read properties of '' @ what @ '' (reading '' @ [CHR 0x27] @ k @ [CHR 0x27] @ '')'')"

text \<open>
  The platform: the functions of the JavaScript runtime and of the browser that the
  repository calls but does not define, and the two sources of nondeterminism. The
  \<open>k\<close>-th reading of the wall clock is \<open>Date_now e k\<close> (milliseconds), the \<open>k\<close>-th
  evaluation of \<^verbatim>\<open>Math.random().toString(36).substr(2, 9)\<close> is \<open>random_suffix e k\<close>.
  \<open>setItem_throws e v\<close> is the exception with which \<^verbatim>\<open>localStorage.setItem(KEY, v)\<close>
  fails (quota exceeded, storage unavailable), if it fails.
\<close>

record env =
  window_defined :: bool
  JSON_parse :: "string \<Rightarrow> exn + json"
  JSON_stringify :: "json \<Rightarrow> string"
  JSON_stringify_pretty :: "json \<Rightarrow> string"
  setItem_throws :: "string \<Rightarrow> exn option"
  removeItem_throws :: "exn option"
  Date_now :: "nat \<Rightarrow> nat"
  toISOString :: "nat \<Rightarrow> string"
  random_suffix :: "nat \<Rightarrow> string"
  Number_toString :: "rat \<Rightarrow> string"
  toLowerCase :: "string \<Rightarrow> string"

text \<open>
  The mutable part: the text stored under \<^verbatim>\<open>STORAGE_KEY\<close> (if any), how many times the
  clock and the random generator have been read, and how many times
  \<^verbatim>\<open>localStorage.setItem\<close> has been called.
\<close>

record state =
  item :: "string option"
  clock_reads :: nat
  random_draws :: nat
  setItem_calls :: nat

section \<open>JavaScript operations on JSON values\<close>

fun truthy :: "json \<Rightarrow> bool" where
  "truthy JNull = False"
| "truthy (JBool b) = b"
| "truthy (JNum r) = (r \<noteq> 0)"
| "truthy (JStr s) = (s \<noteq> [])"
| "truthy (JArr xs) = True"
| "truthy (JObj kv) = True"

text \<open>
  Property access \<^verbatim>\<open>v.k\<close>, for the property names this program reads (\<open>id\<close>, \<open>name\<close>,
  \<open>colors\<close>, \<open>hex\<close>, ...), none of which is defined on a prototype: on \<^verbatim>\<open>null\<close> it
  throws, on an object it is the own property, on anything else it is \<^verbatim>\<open>undefined\<close>
  (\<open>None\<close>).
\<close>

fun get_prop :: "json \<Rightarrow> string \<Rightarrow> exn + json option" where
  "get_prop JNull k = Inl (cannot_read ''null'' k)"
| "get_prop (JObj kv) k = Inr (map_of kv k)"
| "get_prop v k = Inr None"

text \<open>\<^verbatim>\<open>v || d\<close> for a possibly undefined \<open>v\<close>.\<close>

fun or_default :: "json option \<Rightarrow> json \<Rightarrow> json" where
  "or_default None d = d"
| "or_default (Some v) d = (if truthy v then v else d)"

text \<open>Assignment \<^verbatim>\<open>o[k] = v\<close> and object spread \<^verbatim>\<open>{...a, ...b}\<close> on own properties.\<close>

definition set_prop :: "(string \<times> json) list \<Rightarrow> string \<Rightarrow> json \<Rightarrow> (string \<times> json) list" where
  "set_prop kv k v = AList.update k v kv"

definition spread :: "(string \<times> json) list \<Rightarrow> (string \<times> json) list \<Rightarrow> (string \<times> json) list" where
  "spread a b = foldl (\<lambda>acc (k, v). set_prop acc k v) a b"

text \<open>
  The own properties an object spread copies. Only objects reach the spreads of this
  program (an element is spread after its \<open>id\<close> compared equal to a string).
\<close>

fun own_props :: "json \<Rightarrow> (string \<times> json) list" where
  "own_props (JObj kv) = kv"
| "own_props v = []"

text \<open>
  String conversion in a template literal. An array joins its elements with commas,
  \<^verbatim>\<open>null\<close> elements giving the empty string; an object without an own \<open>toString\<close> is
  \<^verbatim>\<open>[object Object]\<close>, and one with an own \<open>toString\<close> (never callable in a JSON value)
  cannot be converted.
\<close>

fun ToString :: "env \<Rightarrow> json \<Rightarrow> exn + string"
  and join_elements :: "env \<Rightarrow> json list \<Rightarrow> exn + string" where
  "ToString e JNull = Inr ''null''"
| "ToString e (JBool b) = Inr (if b then ''true'' else ''false'')"
| "ToString e (JNum r) = Inr (Number_toString e r)"
| "ToString e (JStr s) = Inr s"
| "ToString e (JArr xs) = join_elements e xs"
| "ToString e (JObj kv) =
     (if map_of kv ''toString'' = None then Inr ''[object Object]''
      else Inl (TypeError ''Cannot convert object to primitive value''))"
| "join_elements e [] = Inr []"
| "join_elements e (x # xs) =
     (case (if x = JNull then Inr [] else ToString e x) of
        Inl ex \<Rightarrow> Inl ex
      | Inr s \<Rightarrow>
          (if xs = [] then Inr s
           else (case join_elements e xs of Inl ex \<Rightarrow> Inl ex | Inr r \<Rightarrow> Inr (s @ '','' @ r))))"


section \<open>The repository\<close>

text \<open>
  \<^verbatim>\<open>getSavedPalettes\<close>: the value of the stored text, or \<^verbatim>\<open>[]\<close> when there is no window,
  no text, an empty text, or a text that does not parse. (Reading the key itself is taken
  not to fail.)
\<close>

definition getSavedPalettes :: "env \<Rightarrow> state \<Rightarrow> json" where
  "getSavedPalettes e s =
     (if \<not> window_defined e then JArr []
      else (case item s of
              None \<Rightarrow> JArr []
            | Some stored \<Rightarrow>
                (if stored = [] then JArr []
                 else (case JSON_parse e stored of Inl ex \<Rightarrow> JArr [] | Inr v \<Rightarrow> v))))"

text \<open>\<^verbatim>\<open>generateId\<close> reads the clock, then the random generator.\<close>

definition generated_id :: "env \<Rightarrow> nat \<Rightarrow> nat \<Rightarrow> string" where
  "generated_id e c r =
     ''palette_'' @ Number_toString e (of_nat (Date_now e c)) @ ''_'' @ random_suffix e r"

definition generateId :: "env \<Rightarrow> state \<Rightarrow> string \<times> state" where
  "generateId e s =
     (generated_id e (clock_reads s) (random_draws s),
      s\<lparr>clock_reads := Suc (clock_reads s), random_draws := Suc (random_draws s)\<rparr>)"

text \<open>\<^verbatim>\<open>new Date().toISOString()\<close>.\<close>

definition now_iso :: "env \<Rightarrow> state \<Rightarrow> string \<times> state" where
  "now_iso e s =
     (toISOString e (Date_now e (clock_reads s)), s\<lparr>clock_reads := Suc (clock_reads s)\<rparr>)"

text \<open>
  \<^verbatim>\<open>localStorage.setItem(STORAGE_KEY, v)\<close>: the call is counted, and either stores the
  text or throws.
\<close>

definition setItem :: "env \<Rightarrow> state \<Rightarrow> string \<Rightarrow> exn option \<times> state" where
  "setItem e s v =
     (case setItem_throws e v of
        None \<Rightarrow> (None, s\<lparr>item := Some v, setItem_calls := Suc (setItem_calls s)\<rparr>)
      | Some ex \<Rightarrow> (Some ex, s\<lparr>setItem_calls := Suc (setItem_calls s)\<rparr>))"

text \<open>
  Array spread \<^verbatim>\<open>[...v]\<close>: an array gives its elements, a string its characters,
  anything else is not iterable.
\<close>

fun iterate :: "json \<Rightarrow> exn + json list" where
  "iterate (JArr xs) = Inr xs"
| "iterate (JStr cs) = Inr (map (\<lambda>c. JStr [c]) cs)"
| "iterate v = Inl (TypeError ''existingPalettes is not iterable'')"

text \<open>
  \<^verbatim>\<open>savePalette\<close>. The argument is the draft object (its own properties). The spread of the
  stored collection is outside the \<^verbatim>\<open>try\<close>; a failing write is rethrown as
  \<^verbatim>\<open>Failed to save palette\<close>.
\<close>

definition savePalette :: "env \<Rightarrow> state \<Rightarrow> (string \<times> json) list \<Rightarrow> (exn + string) \<times> state" where
  "savePalette e s palette =
     (let (new_id, s1) = generateId e s;
          (now, s2) = now_iso e s1;
          savedPalette =
            JObj (set_prop (set_prop (set_prop palette ''id'' (JStr new_id))
                    ''createdAt'' (JStr now)) ''updatedAt'' (JStr now));
          existingPalettes = getSavedPalettes e s2
      in (case iterate existingPalettes of
            Inl ex \<Rightarrow> (Inl ex, s2)
          | Inr existing \<Rightarrow>
              (case setItem e s2 (JSON_stringify e (JArr (existing @ [savedPalette]))) of
                 (None, s3) \<Rightarrow> (Inr new_id, s3)
               | (Some ex, s3) \<Rightarrow> (Inl (Error ''Failed to save palette''), s3))))"

text \<open>\<^verbatim>\<open>p.id === id\<close> for a string \<open>id\<close>.\<close>

definition id_is :: "json \<Rightarrow> string \<Rightarrow> exn + bool" where
  "id_is p i = (case get_prop p ''id'' of Inl ex \<Rightarrow> Inl ex | Inr v \<Rightarrow> Inr (v = Some (JStr i)))"

text \<open>\<^verbatim>\<open>palettes.findIndex(p => p.id === id)\<close> on an array; \<open>None\<close> is \<open>-1\<close>.\<close>

fun findIndex_id :: "json list \<Rightarrow> string \<Rightarrow> exn + nat option" where
  "findIndex_id [] i = Inr None"
| "findIndex_id (p # ps) i =
     (case id_is p i of
        Inl ex \<Rightarrow> Inl ex
      | Inr True \<Rightarrow> Inr (Some 0)
      | Inr False \<Rightarrow>
          (case findIndex_id ps i of
             Inl ex \<Rightarrow> Inl ex
           | Inr None \<Rightarrow> Inr None
           | Inr (Some n) \<Rightarrow> Inr (Some (Suc n))))"

text \<open>
  Calling an array method on the stored value when it is not an array throws a
  \<open>TypeError\<close>.
\<close>

fun as_array :: "string \<Rightarrow> json \<Rightarrow> exn + json list" where
  "as_array m (JArr xs) = Inr xs"
| "as_array m JNull = Inl (cannot_read ''null'' m)"
| "as_array m v = Inl (TypeError (''palettes.'' @ m @ '' is not a function''))"

text \<open>
  \<^verbatim>\<open>updatePalette\<close>: the first record with the id is replaced by its merge with the
  updates, \<open>updatedAt\<close> set last. A failing write is caught and answered with \<^verbatim>\<open>false\<close>.
\<close>

definition updatePalette ::
  "env \<Rightarrow> state \<Rightarrow> string \<Rightarrow> (string \<times> json) list \<Rightarrow> (exn + bool) \<times> state" where
  "updatePalette e s i updates =
     (case as_array ''findIndex'' (getSavedPalettes e s) of
        Inl ex \<Rightarrow> (Inl ex, s)
      | Inr palettes \<Rightarrow>
          (case findIndex_id palettes i of
             Inl ex \<Rightarrow> (Inl ex, s)
           | Inr None \<Rightarrow> (Inr False, s)
           | Inr (Some index) \<Rightarrow>
               (let (now, s1) = now_iso e s;
                    updatedPalette =
                      JObj (set_prop (spread (own_props (palettes ! index)) updates)
                              ''updatedAt'' (JStr now))
                in (case setItem e s1 (JSON_stringify e (JArr (palettes[index := updatedPalette]))) of
                      (None, s2) \<Rightarrow> (Inr True, s2)
                    | (Some ex, s2) \<Rightarrow> (Inr False, s2)))))"

text \<open>\<^verbatim>\<open>palettes.filter(p => p.id !== id)\<close> on an array.\<close>

fun filter_id_ne :: "json list \<Rightarrow> string \<Rightarrow> exn + json list" where
  "filter_id_ne [] i = Inr []"
| "filter_id_ne (p # ps) i =
     (case id_is p i of
        Inl ex \<Rightarrow> Inl ex
      | Inr b \<Rightarrow>
          (case filter_id_ne ps i of
             Inl ex \<Rightarrow> Inl ex
           | Inr r \<Rightarrow> Inr (if b then r else p # r)))"

definition deletePalette :: "env \<Rightarrow> state \<Rightarrow> string \<Rightarrow> (exn + bool) \<times> state" where
  "deletePalette e s i =
     (case as_array ''filter'' (getSavedPalettes e s) of
        Inl ex \<Rightarrow> (Inl ex, s)
      | Inr palettes \<Rightarrow>
          (case filter_id_ne palettes i of
             Inl ex \<Rightarrow> (Inl ex, s)
           | Inr filteredPalettes \<Rightarrow>
               (if length filteredPalettes = length palettes then (Inr False, s)
                else (case setItem e s (JSON_stringify e (JArr filteredPalettes)) of
                        (None, s1) \<Rightarrow> (Inr True, s1)
                      | (Some ex, s1) \<Rightarrow> (Inr False, s1)))))"

text \<open>\<^verbatim>\<open>palettes.find(p => p.id === id) || null\<close>; \<open>JNull\<close> is the absent marker.\<close>

fun find_id :: "json list \<Rightarrow> string \<Rightarrow> exn + json option" where
  "find_id [] i = Inr None"
| "find_id (p # ps) i =
     (case id_is p i of
        Inl ex \<Rightarrow> Inl ex
      | Inr True \<Rightarrow> Inr (Some p)
      | Inr False \<Rightarrow> find_id ps i)"

definition getPaletteById :: "env \<Rightarrow> state \<Rightarrow> string \<Rightarrow> exn + json" where
  "getPaletteById e s i =
     (case as_array ''find'' (getSavedPalettes e s) of
        Inl ex \<Rightarrow> Inl ex
      | Inr palettes \<Rightarrow>
          (case find_id palettes i of
             Inl ex \<Rightarrow> Inl ex
           | Inr found \<Rightarrow> Inr (or_default found JNull)))"











subsection \<open>Import\<close>

text \<open>
  The loop of \<^verbatim>\<open>importPalettes\<close> carries the collection read from storage (mutated by
  \<open>push\<close>), the error messages, the success count, and the state.
\<close>

type_synonym import_acc = "json \<times> string list \<times> nat \<times> state"

text \<open>A property of a value already known not to be \<^verbatim>\<open>null\<close>.\<close>

definition field :: "json \<Rightarrow> string \<Rightarrow> json option" where
  "field v k = (case get_prop v k of Inl ex \<Rightarrow> None | Inr x \<Rightarrow> x)"

text \<open>The \<^verbatim>\<open>catch\<close> of the loop body.\<close>

definition import_caught :: "import_acc \<Rightarrow> exn \<Rightarrow> import_acc" where
  "import_caught acc ex =
     (case acc of (existing, errors, successCount, s) \<Rightarrow>
        (existing, errors @ [''Error importing palette: '' @ message ex], successCount, s))"

text \<open>\<^verbatim>\<open>errors.push(`Invalid palette: ${palette.name || 'unnamed'}`); continue\<close>.\<close>

definition import_invalid :: "env \<Rightarrow> import_acc \<Rightarrow> json \<Rightarrow> import_acc" where
  "import_invalid e acc palette =
     (case ToString e (or_default (field palette ''name'') (JStr ''unnamed'')) of
        Inl ex \<Rightarrow> import_caught acc ex
      | Inr t \<Rightarrow>
          (case acc of (existing, errors, successCount, s) \<Rightarrow>
             (existing, errors @ [''Invalid palette: '' @ t], successCount, s)))"

fun push :: "json \<Rightarrow> json \<Rightarrow> exn + json" where
  "push (JArr xs) v = Inr (JArr (xs @ [v]))"
| "push JNull v = Inl (cannot_read ''null'' ''push'')"
| "push x v = Inl (TypeError ''existingPalettes.push is not a function'')"

text \<open>The record built for a palette that passed validation.\<close>

definition validPalette :: "string \<Rightarrow> string \<Rightarrow> json \<Rightarrow> json \<Rightarrow> json \<Rightarrow> json" where
  "validPalette newId now palette name colors =
     JObj [(''id'', JStr newId),
           (''name'', name),
           (''description'', or_default (field palette ''description'') (JStr [])),
           (''colors'', colors),
           (''colorTheory'', or_default (field palette ''colorTheory'') (JStr [])),
           (''useCases'', or_default (field palette ''useCases'') (JArr [])),
           (''category'', or_default (field palette ''category'') (JStr ''custom'')),
           (''createdAt'', or_default (field palette ''createdAt'') (JStr now)),
           (''updatedAt'', JStr now)]"

definition import_valid :: "env \<Rightarrow> import_acc \<Rightarrow> json \<Rightarrow> json \<Rightarrow> json \<Rightarrow> import_acc" where
  "import_valid e acc palette name colors =
     (case acc of (existing, errors, successCount, s) \<Rightarrow>
        (let (newId, s1) = generateId e s;
             (now, s2) = now_iso e s1
         in (case push existing (validPalette newId now palette name colors) of
               Inl ex \<Rightarrow> import_caught (existing, errors, successCount, s2) ex
             | Inr existing' \<Rightarrow> (existing', errors, Suc successCount, s2))))"

text \<open>
  One iteration. The test is
  \<^verbatim>\<open>!palette.name || !palette.colors || !Array.isArray(palette.colors)\<close>; reading
  \<open>name\<close> of \<^verbatim>\<open>null\<close> throws into the \<^verbatim>\<open>catch\<close>.
\<close>

definition import_record :: "env \<Rightarrow> import_acc \<Rightarrow> json \<Rightarrow> import_acc" where
  "import_record e acc palette =
     (case get_prop palette ''name'' of
        Inl ex \<Rightarrow> import_caught acc ex
      | Inr None \<Rightarrow> import_invalid e acc palette
      | Inr (Some name) \<Rightarrow>
          (if \<not> truthy name then import_invalid e acc palette
           else (case field palette ''colors'' of
                   Some (JArr cs) \<Rightarrow> import_valid e acc palette name (JArr cs)
                 | _ \<Rightarrow> import_invalid e acc palette)))"

fun import_loop :: "env \<Rightarrow> import_acc \<Rightarrow> json list \<Rightarrow> import_acc" where
  "import_loop e acc [] = acc"
| "import_loop e acc (palette # rest) = import_loop e (import_record e acc palette) rest"

text \<open>
  \<^verbatim>\<open>importPalettes\<close> returns \<open>(success, errors)\<close>. Everything is inside the outer
  \<^verbatim>\<open>try\<close>, the final write included: whatever is thrown becomes the single message
  \<^verbatim>\<open>Failed to parse JSON: ...\<close> with success 0.
\<close>

definition importPalettes :: "env \<Rightarrow> state \<Rightarrow> string \<Rightarrow> (nat \<times> string list) \<times> state" where
  "importPalettes e s jsonData =
     (case JSON_parse e jsonData of
        Inl ex \<Rightarrow> ((0, [''Failed to parse JSON: '' @ message ex]), s)
      | Inr (JArr importedPalettes) \<Rightarrow>
          (case import_loop e (getSavedPalettes e s, [], 0, s) importedPalettes of
             (existing, errors, successCount, s1) \<Rightarrow>
               (if successCount > 0 then
                  (case setItem e s1 (JSON_stringify e existing) of
                     (None, s2) \<Rightarrow> ((successCount, errors), s2)
                   | (Some ex, s2) \<Rightarrow> ((0, [''Failed to parse JSON: '' @ message ex]), s2))
                else ((successCount, errors), s1)))
      | Inr v \<Rightarrow>
          ((0, [''Failed to parse JSON: Invalid format: expected array of palettes'']), s))"

text \<open>\<^verbatim>\<open>clearAllPalettes\<close>: the key is removed; a failure is only logged.\<close>

definition clearAllPalettes :: "env \<Rightarrow> state \<Rightarrow> state" where
  "clearAllPalettes e s = (case removeItem_throws e of None \<Rightarrow> s\<lparr>item := None\<rparr> | Some ex \<Rightarrow> s)"

section \<open>The view-model\<close>

text \<open>
  The hook \<^verbatim>\<open>usePalettes\<close> of \<^verbatim>\<open>src/hooks/usePalettes.ts\<close> keeps a mirror of the list, a
  loading flag and one error slot. An operation returns its result with the new state and
  the new view-model; an exception raised inside a state updater is not caught by the
  operation and is the result \<open>Inl\<close>.
\<close>

record vm =
  palettes :: "json list"
  loading :: bool
  error :: "string option"

text \<open>
  The updater of \<^verbatim>\<open>updateExistingPalette\<close>: every element of the mirror with the id is
  merged with the updates and stamped with a new reading of the clock.
\<close>

fun patch_mirror ::
  "env \<Rightarrow> state \<Rightarrow> string \<Rightarrow> (string \<times> json) list \<Rightarrow> json list \<Rightarrow> exn + (json list \<times> state)" where
  "patch_mirror e s i updates [] = Inr ([], s)"
| "patch_mirror e s i updates (palette # rest) =
     (case id_is palette i of
        Inl ex \<Rightarrow> Inl ex
      | Inr True \<Rightarrow>
          (let (now, s1) = now_iso e s
           in (case patch_mirror e s1 i updates rest of
                 Inl ex \<Rightarrow> Inl ex
               | Inr (r, s2) \<Rightarrow>
                   Inr (JObj (set_prop (spread (own_props palette) updates)
                                ''updatedAt'' (JStr now)) # r, s2)))
      | Inr False \<Rightarrow>
          (case patch_mirror e s i updates rest of
             Inl ex \<Rightarrow> Inl ex
           | Inr (r, s2) \<Rightarrow> Inr (palette # r, s2)))"

definition updateExistingPalette ::
  "env \<Rightarrow> state \<Rightarrow> vm \<Rightarrow> string \<Rightarrow> (string \<times> json) list \<Rightarrow> exn + (bool \<times> state \<times> vm)" where
  "updateExistingPalette e s v i updates =
     (case updatePalette e s i updates of
        (Inl ex, s1) \<Rightarrow> Inr (False, s1, v\<lparr>error := Some (message ex)\<rparr>)
      | (Inr success, s1) \<Rightarrow>
          (if success then
             (case patch_mirror e s1 i updates (palettes v) of
                Inl ex \<Rightarrow> Inl ex
              | Inr (ps, s2) \<Rightarrow> Inr (True, s2, v\<lparr>palettes := ps, error := None\<rparr>))
           else Inr (False, s1, v)))"

definition removePalette :: "env \<Rightarrow> state \<Rightarrow> vm \<Rightarrow> string \<Rightarrow> exn + (bool \<times> state \<times> vm)" where
  "removePalette e s v i =
     (case deletePalette e s i of
        (Inl ex, s1) \<Rightarrow> Inr (False, s1, v\<lparr>error := Some (message ex)\<rparr>)
      | (Inr success, s1) \<Rightarrow>
          (if success then
             (case filter_id_ne (palettes v) i of
                Inl ex \<Rightarrow> Inl ex
              | Inr ps \<Rightarrow> Inr (True, s1, v\<lparr>palettes := ps, error := None\<rparr>))
           else Inr (False, s1, v)))"

section \<open>Typed palettes\<close>

text \<open>
  The interface \<^verbatim>\<open>SavedPalette\<close>, and the JSON value that is a palette of that type, with
  the properties in the order of the interface (the order in which \<^verbatim>\<open>importPalettes\<close>
  builds a record).
\<close>

datatype category = classic | modern | seasonal | brand | nature | custom

fun category_name :: "category \<Rightarrow> string" where
  "category_name classic = ''classic''"
| "category_name modern = ''modern''"
| "category_name seasonal = ''seasonal''"
| "category_name brand = ''brand''"
| "category_name nature = ''nature''"
| "category_name custom = ''custom''"

record Color =
  hex :: string
  color_name :: string
  role :: string

record SavedPalette =
  palette_id :: string
  name :: string
  description :: string
  colors :: "Color list"
  colorTheory :: string
  useCases :: "string list"
  category :: category
  createdAt :: string
  updatedAt :: string

definition color_json :: "Color \<Rightarrow> json" where
  "color_json c =
     JObj [(''hex'', JStr (hex c)), (''name'', JStr (color_name c)), (''role'', JStr (role c))]"

definition palette_json :: "SavedPalette \<Rightarrow> json" where
  "palette_json p =
     JObj [(''id'', JStr (palette_id p)),
           (''name'', JStr (name p)),
           (''description'', JStr (description p)),
           (''colors'', JArr (map color_json (colors p))),
           (''colorTheory'', JStr (colorTheory p)),
           (''useCases'', JArr (map JStr (useCases p))),
           (''category'', JStr (category_name (category p))),
           (''createdAt'', JStr (createdAt p)),
           (''updatedAt'', JStr (updatedAt p))]"


section \<open>Notions of the specification\<close>

text \<open>
  The JSON functions of the platform are lawful when a serialized value, compact or
  pretty-printed, is a non-empty text that parses back to the value.
\<close>

definition JSON_lawful :: "env \<Rightarrow> bool" where
  "JSON_lawful e \<longleftrightarrow>
     (\<forall>v. JSON_parse e (JSON_stringify e v) = Inr v \<and> JSON_stringify e v \<noteq> [] \<and>
          JSON_parse e (JSON_stringify_pretty e v) = Inr v)"

text \<open>
  A record of an import batch passes validation when its \<open>name\<close> is truthy and its
  \<open>colors\<close> is an array.
\<close>

definition acceptable :: "json \<Rightarrow> bool" where
  "acceptable r \<longleftrightarrow>
     (case field r ''name'' of None \<Rightarrow> False | Some n \<Rightarrow> truthy n) \<and>
     (case field r ''colors'' of Some (JArr cs) \<Rightarrow> True | _ \<Rightarrow> False)"

text \<open>
  The records an import appends for a batch, when the clock has been read \<open>c\<close> times and
  the random generator \<open>r\<close> times before: each accepted record reads the clock for its
  id, the generator, and the clock again for its timestamp.
\<close>

fun imported :: "env \<Rightarrow> nat \<Rightarrow> nat \<Rightarrow> json list \<Rightarrow> json list" where
  "imported e c r [] = []"
| "imported e c r (p # ps) =
     (if acceptable p
      then validPalette (generated_id e c r) (toISOString e (Date_now e (Suc c))) p
             (the (field p ''name'')) (the (field p ''colors''))
           # imported e (Suc (Suc c)) (Suc r) ps
      else imported e c r ps)"

text \<open>The message reported for a record that does not pass.\<close>

definition rejection :: "env \<Rightarrow> json \<Rightarrow> string" where
  "rejection e p =
     (case get_prop p ''name'' of
        Inl ex \<Rightarrow> ''Error importing palette: '' @ message ex
      | Inr n \<Rightarrow>
          (case ToString e (or_default n (JStr ''unnamed'')) of
             Inl ex \<Rightarrow> ''Error importing palette: '' @ message ex
           | Inr t \<Rightarrow> ''Invalid palette: '' @ t))"




text \<open>
  The record \<^verbatim>\<open>updatePalette\<close> stores in place of \<open>p\<close> when the clock has been read \<open>c\<close>
  times before.
\<close>

definition updated_record :: "env \<Rightarrow> nat \<Rightarrow> json \<Rightarrow> (string \<times> json) list \<Rightarrow> json" where
  "updated_record e c p updates =
     JObj (set_prop (spread (own_props p) updates) ''updatedAt'' (JStr (toISOString e (Date_now e c))))"





text \<open>
  The states the repository reaches from an empty storage: it is the only writer of the
  key.
\<close>

inductive reachable :: "env \<Rightarrow> state \<Rightarrow> bool" for e :: env where
  initial: "item s = None \<Longrightarrow> reachable e s"
| save: "reachable e s \<Longrightarrow> reachable e (snd (savePalette e s palette))"
| update: "reachable e s \<Longrightarrow> reachable e (snd (updatePalette e s i updates))"
| delete: "reachable e s \<Longrightarrow> reachable e (snd (deletePalette e s i))"
| import: "reachable e s \<Longrightarrow> reachable e (snd (importPalettes e s jsonData))"
| clear: "reachable e s \<Longrightarrow> reachable e (clearAllPalettes e s)"

section \<open>A reference platform\<close>

text \<open>
  A platform on which the theorems below are exercised. Its JSON text of a value is a
  one-letter tag followed by the value's index in an enumeration of all values, in unary;
  its clock advances by one millisecond per reading, and no two random suffixes agree.
\<close>

instance json :: countable
  by countable_datatype

definition ref_stringify :: "char \<Rightarrow> json \<Rightarrow> string" where
  "ref_stringify tag v = tag # replicate (to_nat v) (CHR ''1'')"

definition ref_parse :: "string \<Rightarrow> exn + json" where
  "ref_parse t =
     (case t of
        [] \<Rightarrow> Inl (SyntaxError ''Unexpected end of JSON input'')
      | c # cs \<Rightarrow>
          (if c = CHR ''J'' \<or> c = CHR ''P'' then Inr (from_nat (length cs))
           else Inl (SyntaxError ''Unexpected token'')))"

definition ascii_lower :: "char \<Rightarrow> char" where
  "ascii_lower c =
     (if (65::nat) \<le> of_char c \<and> of_char c \<le> (90::nat) then char_of (of_char c + (32::nat)) else c)"

definition ref_env :: env where
  "ref_env =
     \<lparr> window_defined = True,
       JSON_parse = ref_parse,
       JSON_stringify = ref_stringify (CHR ''J''),
       JSON_stringify_pretty = ref_stringify (CHR ''P''),
       setItem_throws = (\<lambda>v. None),
       removeItem_throws = None,
       Date_now = (\<lambda>k. 1000 + k),
       toISOString = (\<lambda>t. replicate t (CHR ''t'')),
       random_suffix = (\<lambda>k. replicate k (CHR ''r'')),
       Number_toString = (\<lambda>q. replicate (nat \<lfloor>q\<rfloor>) (CHR ''n'')),
       toLowerCase = map ascii_lower \<rparr>"

text \<open>The same platform with a storage that rejects every write.\<close>

definition full_env :: env where
  "full_env = ref_env\<lparr>setItem_throws := (\<lambda>v. Some (StorageError ''QuotaExceededError''))\<rparr>"

text \<open>The same platform with a stopped clock and a constant random generator.\<close>

definition stuck_env :: env where
  "stuck_env = ref_env\<lparr>Date_now := (\<lambda>k. 1000), random_suffix := (\<lambda>k. ''abc'')\<rparr>"

definition empty_state :: state where
  "empty_state = \<lparr>item = None, clock_reads = 0, random_draws = 0, setItem_calls = 0\<rparr>"

text \<open>A stored catalog of one palette, for the examples.\<close>

definition sunset :: SavedPalette where
  "sunset =
     \<lparr> palette_id = ''palette_1_a'', name = ''Sunset'', description = [],
       colors = [\<lparr> hex = ''#FF5733'', color_name = ''Coral'', role = ''primary'' \<rparr>],
       colorTheory = ''warm'', useCases = [''web''], category = nature,
       createdAt = ''2024-01-01T00:00:00.000Z'', updatedAt = ''2024-01-02T00:00:00.000Z'' \<rparr>"

definition sunset_state :: state where
  "sunset_state =
     \<lparr> item = Some (ref_stringify (CHR ''J'') (JArr [palette_json sunset])),
       clock_reads = 0, random_draws = 0, setItem_calls = 0 \<rparr>"

definition sunset_text :: string where
  "sunset_text = ref_stringify (CHR ''J'') (JArr [palette_json sunset])"

text \<open>A text that is not JSON.\<close>

definition gibberish :: string where
  "gibberish = ''{not json''"

text \<open>Import batches for the examples: an empty name, the two-record scenario of the
  specification (the second record has no name), and an empty \<open>createdAt\<close>.\<close>

definition unnamed_record :: json where
  "unnamed_record = JObj [(''name'', JStr []), (''colors'', JArr [])]"

definition unnamed_text :: string where
  "unnamed_text = ref_stringify (CHR ''J'') (JArr [unnamed_record])"

definition scenario_records :: "json list" where
  "scenario_records =
     [JObj [(''name'', JStr ''Good''), (''colors'', JArr [])], JObj [(''colors'', JArr [])]]"

definition scenario_text :: string where
  "scenario_text = ref_stringify (CHR ''J'') (JArr scenario_records)"

definition blank_created :: json where
  "blank_created = JObj [(''name'', JStr ''A''), (''colors'', JArr []), (''createdAt'', JStr [])]"

definition blank_text :: string where
  "blank_text = ref_stringify (CHR ''J'') (JArr [blank_created])"

text \<open>View-models without and with an earlier error, and a storage whose text is not a
  collection.\<close>

definition quiet_vm :: vm where
  "quiet_vm = \<lparr> palettes = [palette_json sunset], loading = False, error = None \<rparr>"

definition stale_vm :: vm where
  "stale_vm = \<lparr> palettes = [palette_json sunset], loading = False,
                error = Some ''Failed to save palette'' \<rparr>"

definition broken_state :: state where
  "broken_state =
     \<lparr> item = Some (ref_stringify (CHR ''J'') (JNum 5)),
       clock_reads = 0, random_draws = 0, setItem_calls = 0 \<rparr>"

section \<open>Invariants of the stored collection\<close>

text \<open>The record \<^verbatim>\<open>savePalette\<close> appends when the clock has been read \<open>c\<close> times and the
  random generator \<open>r\<close> times before.\<close>

definition saved_record :: "env \<Rightarrow> nat \<Rightarrow> nat \<Rightarrow> (string \<times> json) list \<Rightarrow> json" where
  "saved_record e c r d =
     JObj (set_prop (set_prop (set_prop d ''id'' (JStr (generated_id e c r)))
             ''createdAt'' (JStr (toISOString e (Date_now e (Suc c)))))
             ''updatedAt'' (JStr (toISOString e (Date_now e (Suc c)))))"


text \<open>
  The ids of a collection are pairwise distinct and each was produced by \<^verbatim>\<open>generateId\<close>
  at an earlier reading of the clock and an earlier draw; and the stored text is the
  serialization of such a collection.
\<close>

definition ids_generated_before :: "env \<Rightarrow> nat \<Rightarrow> nat \<Rightarrow> json list \<Rightarrow> bool" where
  "ids_generated_before e c r ps \<longleftrightarrow>
     distinct (map (\<lambda>p. field p ''id'') ps) \<and>
     (\<forall>p\<in>set ps. \<exists>c'<c. \<exists>r'<r. field p ''id'' = Some (JStr (generated_id e c' r')))"


text \<open>
  Every record of a collection is an object whose \<open>updatedAt\<close> is the timestamp of an
  earlier reading of the clock; and the stored text is the serialization of such a
  collection.
\<close>

definition stamped_before :: "env \<Rightarrow> nat \<Rightarrow> json list \<Rightarrow> bool" where
  "stamped_before e c ps \<longleftrightarrow>
     (\<forall>p\<in>set ps. (\<exists>kv. p = JObj kv) \<and>
        (\<exists>c'<c. field p ''updatedAt'' = Some (JStr (toISOString e (Date_now e c')))))"

definition stamps_inv :: "env \<Rightarrow> state \<Rightarrow> bool" where
  "stamps_inv e s \<longleftrightarrow>
     (\<forall>t. item s = Some t \<longrightarrow>
        (\<exists>ps. t = JSON_stringify e (JArr ps) \<and> stamped_before e (clock_reads s) ps))"


definition one_draft :: "(string \<times> json) list" where
  "one_draft = [(''name'', JStr ''One''), (''colors'', JArr [])]"

definition one_saved :: state where
  "one_saved = snd (savePalette ref_env empty_state one_draft)"

section \<open>Facts about the platform and the storage\<close>

lemma ref_parse_stringify:
  "ref_parse (ref_stringify (CHR ''J'') v) = Inr v"
  "ref_parse (ref_stringify (CHR ''P'') v) = Inr v"
  by (simp_all add: ref_parse_def ref_stringify_def)

lemma ref_env_lawful: "JSON_lawful ref_env"
  by (simp add: JSON_lawful_def ref_env_def ref_parse_stringify) (simp add: ref_stringify_def)

lemma full_env_lawful: "JSON_lawful full_env"
  by (simp add: JSON_lawful_def full_env_def ref_env_def ref_parse_stringify)
    (simp add: ref_stringify_def)


lemma stored_read:
  "JSON_lawful e \<Longrightarrow> window_defined e \<Longrightarrow> item s = Some (JSON_stringify e v) \<Longrightarrow>
   getSavedPalettes e s = v"
  by (simp add: getSavedPalettes_def JSON_lawful_def)

lemma empty_read: "item s = None \<Longrightarrow> getSavedPalettes e s = JArr []"
  by (simp add: getSavedPalettes_def)

lemma sunset_read:
  "getSavedPalettes ref_env sunset_state = JArr [palette_json sunset]"
  "getSavedPalettes full_env sunset_state = JArr [palette_json sunset]"
  "getSavedPalettes stuck_env sunset_state = JArr [palette_json sunset]"
  by (simp_all add: getSavedPalettes_def ref_env_def full_env_def stuck_env_def sunset_state_def
      ref_parse_stringify, simp_all add: ref_stringify_def)

lemma sunset_id: "field (palette_json sunset) ''id'' = Some (JStr ''palette_1_a'')"
  by (simp add: palette_json_def sunset_def field_def)

section \<open>Looking a record up by id\<close>

lemma id_is_field: "p \<noteq> JNull \<Longrightarrow> id_is p i = Inr (field p ''id'' = Some (JStr i))"
  by (cases p) (simp_all add: id_is_def field_def)

lemma findIndex_id_absent:
  "\<forall>p\<in>set ps. p \<noteq> JNull \<and> field p ''id'' \<noteq> Some (JStr i) \<Longrightarrow> findIndex_id ps i = Inr None"
  by (induction ps) (simp_all add: id_is_field)

lemma filter_id_ne_absent:
  "\<forall>p\<in>set ps. p \<noteq> JNull \<and> field p ''id'' \<noteq> Some (JStr i) \<Longrightarrow> filter_id_ne ps i = Inr ps"
  by (induction ps) (simp_all add: id_is_field)

lemma find_id_absent:
  "\<forall>p\<in>set ps. p \<noteq> JNull \<and> field p ''id'' \<noteq> Some (JStr i) \<Longrightarrow> find_id ps i = Inr None"
  by (induction ps) (simp_all add: id_is_field)


lemma updatePalette_found:
  assumes "getSavedPalettes e s = JArr ps" and "findIndex_id ps i = Inr (Some k)"
  shows "updatePalette e s i updates =
     (case setItem_throws e (JSON_stringify e (JArr (ps[k := updated_record e (clock_reads s) (ps ! k) updates]))) of
        None \<Rightarrow>
          (Inr True,
           s\<lparr>item := Some (JSON_stringify e (JArr (ps[k := updated_record e (clock_reads s) (ps ! k) updates]))),
             clock_reads := Suc (clock_reads s), setItem_calls := Suc (setItem_calls s)\<rparr>)
      | Some ex \<Rightarrow>
          (Inr False, s\<lparr>clock_reads := Suc (clock_reads s), setItem_calls := Suc (setItem_calls s)\<rparr>))"
  using assms
  by (simp add: updatePalette_def setItem_def now_iso_def updated_record_def Let_def
      split: option.splits)

section \<open>The import loop\<close>

lemma import_record_array:
  "import_record e (JArr xs, errs, n, s) p =
     (if acceptable p
      then (JArr (xs @ [validPalette (generated_id e (clock_reads s) (random_draws s))
                          (toISOString e (Date_now e (Suc (clock_reads s)))) p
                          (the (field p ''name'')) (the (field p ''colors''))]),
            errs, Suc n,
            s\<lparr>clock_reads := Suc (Suc (clock_reads s)), random_draws := Suc (random_draws s)\<rparr>)
      else (JArr xs, errs @ [rejection e p], n, s))"
  by (cases p)
    (auto simp: import_record_def acceptable_def field_def import_caught_def import_invalid_def
      import_valid_def rejection_def generateId_def now_iso_def
      split: option.splits json.splits sum.splits)

lemma import_loop_array:
  "import_loop e (JArr xs, errs, n, s) rs =
     (JArr (xs @ imported e (clock_reads s) (random_draws s) rs),
      errs @ map (rejection e) (filter (\<lambda>r. \<not> acceptable r) rs),
      n + length (filter acceptable rs),
      s\<lparr>clock_reads := clock_reads s + 2 * length (filter acceptable rs),
        random_draws := random_draws s + length (filter acceptable rs)\<rparr>)"
  by (induction rs arbitrary: xs errs n s) (simp_all add: import_record_array)

lemma import_record_frame:
  assumes "import_record e (x, errs, n, s) p = (x', errs', n', s')"
  shows "item s' = item s \<and> setItem_calls s' = setItem_calls s \<and>
         (n' = n \<or> (n' = Suc n \<and> acceptable p))"
  using assms
  by (cases p; cases x)
    (auto simp: import_record_def acceptable_def field_def import_caught_def import_invalid_def
      import_valid_def generateId_def now_iso_def
      split: option.splits json.splits sum.splits if_splits)

lemma import_loop_frame:
  "import_loop e (x, errs, n, s) rs = (x', errs', n', s') \<Longrightarrow>
   item s' = item s \<and> setItem_calls s' = setItem_calls s \<and> n \<le> n' \<and>
   (n < n' \<longrightarrow> (\<exists>r\<in>set rs. acceptable r))"
proof (induction rs arbitrary: x errs n s)
  case Nil
  then show ?case by simp
next
  case (Cons r rs)
  obtain x1 errs1 n1 s1 where step: "import_record e (x, errs, n, s) r = (x1, errs1, n1, s1)"
    by (cases "import_record e (x, errs, n, s) r") auto
  from Cons.prems step have rest: "import_loop e (x1, errs1, n1, s1) rs = (x', errs', n', s')"
    by simp
  from import_record_frame [OF step] Cons.IH [OF rest] show ?case
    by auto
qed

section \<open>Missing ids\<close>

text \<open>
  C7. For an id that no record of the stored collection carries, \<^verbatim>\<open>updatePalette\<close>
  returns false, \<^verbatim>\<open>deletePalette\<close> returns false and leaves the state, hence the stored
  collection, as it was, and \<^verbatim>\<open>getPaletteById\<close> returns \<^verbatim>\<open>null\<close>; none of them raises
  (a raise would be \<open>Inl\<close>). The stored collection is an array without \<^verbatim>\<open>null\<close>
  elements.
\<close>

theorem not_found_is_signalled:
  assumes "getSavedPalettes e s = JArr ps"
    and "\<forall>p\<in>set ps. p \<noteq> JNull \<and> field p ''id'' \<noteq> Some (JStr i)"
  shows "updatePalette e s i updates = (Inr False, s) \<and>
         deletePalette e s i = (Inr False, s) \<and>
         getSavedPalettes e (snd (deletePalette e s i)) = getSavedPalettes e s \<and>
         getPaletteById e s i = Inr JNull"
  using assms
  by (simp add: updatePalette_def deletePalette_def getPaletteById_def
      findIndex_id_absent filter_id_ne_absent find_id_absent)

theorem not_found_is_signalled_witness:
  "getSavedPalettes ref_env sunset_state = JArr [palette_json sunset] \<and>
   palette_json sunset \<noteq> JNull \<and>
   field (palette_json sunset) ''id'' \<noteq> Some (JStr ''palette_9_z'') \<and>
   updatePalette ref_env sunset_state ''palette_9_z'' [(''name'', JStr ''X'')] = (Inr False, sunset_state) \<and>
   deletePalette ref_env sunset_state ''palette_9_z'' = (Inr False, sunset_state) \<and>
   getPaletteById ref_env sunset_state ''palette_9_z'' = Inr JNull"
proof -
  have h1: "getSavedPalettes ref_env sunset_state = JArr [palette_json sunset]"
    by (rule sunset_read)
  have h2: "\<forall>p\<in>set [palette_json sunset]. p \<noteq> JNull \<and> field p ''id'' \<noteq> Some (JStr ''palette_9_z'')"
    by (simp add: sunset_id) (simp add: palette_json_def)
  from not_found_is_signalled [OF h1 h2, of "[(''name'', JStr ''X'')]"] h1 h2
  show ?thesis by simp
qed

section \<open>A failing write during an update\<close>




section \<open>Import writes at most once\<close>

lemma importPalettes_not_array:
  "\<forall>rs. JSON_parse e t \<noteq> Inr (JArr rs) \<Longrightarrow>
   (\<exists>m. fst (importPalettes e s t) = (0, [m])) \<and> snd (importPalettes e s t) = s"
  by (cases "JSON_parse e t"; simp add: importPalettes_def split: json.splits)

lemma importPalettes_frame:
  assumes "JSON_parse e t = Inr (JArr rs)"
  shows "setItem_calls (snd (importPalettes e s t)) \<le> Suc (setItem_calls s) \<and>
         (setItem_calls (snd (importPalettes e s t)) \<noteq> setItem_calls s \<longrightarrow>
            (\<exists>r\<in>set rs. acceptable r)) \<and>
         (item (snd (importPalettes e s t)) \<noteq> item s \<longrightarrow>
            setItem_calls (snd (importPalettes e s t)) = Suc (setItem_calls s))"
proof -
  obtain x errs n s1 where loop:
    "import_loop e (getSavedPalettes e s, [], 0, s) rs = (x, errs, n, s1)"
    by (cases "import_loop e (getSavedPalettes e s, [], 0, s) rs") auto
  note fr = import_loop_frame [OF loop]
  show ?thesis
  proof (cases "n > 0")
    case True
    with fr assms loop show ?thesis
      by (auto simp: importPalettes_def setItem_def split: option.splits)
  next
    case False
    with fr assms loop show ?thesis
      by (simp add: importPalettes_def)
  qed
qed

lemma importPalettes_array:
  assumes "JSON_parse e t = Inr (JArr rs)" and "getSavedPalettes e s = JArr ps"
  shows "importPalettes e s t =
     (if \<exists>r\<in>set rs. acceptable r then
        (case setItem_throws e (JSON_stringify e (JArr (ps @ imported e (clock_reads s) (random_draws s) rs))) of
           None \<Rightarrow>
             ((length (filter acceptable rs), map (rejection e) (filter (\<lambda>r. \<not> acceptable r) rs)),
              s\<lparr>item := Some (JSON_stringify e (JArr (ps @ imported e (clock_reads s) (random_draws s) rs))),
                clock_reads := clock_reads s + 2 * length (filter acceptable rs),
                random_draws := random_draws s + length (filter acceptable rs),
                setItem_calls := Suc (setItem_calls s)\<rparr>)
         | Some ex \<Rightarrow>
             ((0, [''Failed to parse JSON: '' @ message ex]),
              s\<lparr>clock_reads := clock_reads s + 2 * length (filter acceptable rs),
                random_draws := random_draws s + length (filter acceptable rs),
                setItem_calls := Suc (setItem_calls s)\<rparr>))
      else ((0, map (rejection e) rs), s))"
proof (cases "\<exists>r\<in>set rs. acceptable r")
  case True
  then have "length (filter acceptable rs) > 0"
    by (simp add: filter_empty_conv)
  with True assms show ?thesis
    by (simp add: importPalettes_def import_loop_array setItem_def split: option.splits)
next
  case False
  then have "filter acceptable rs = []" "filter (\<lambda>r. \<not> acceptable r) rs = rs"
    by (simp_all add: filter_empty_conv filter_id_conv)
  with False assms show ?thesis
    by (simp add: importPalettes_def import_loop_array)
qed

text \<open>
  C4. \<^verbatim>\<open>importPalettes\<close> calls \<^verbatim>\<open>localStorage.setItem\<close> at most once, and only
  when the text parsed to an array with a record that passes validation; the stored text
  changes only through that call, which comes after the loop and carries the whole
  resulting collection. When the text does not parse to an array (it is not JSON, or it is
  another JSON value) the result is success 0 with exactly one message, and the state,
  hence the stored collection, is unchanged.
\<close>

theorem import_writes_at_most_once:
  "setItem_calls (snd (importPalettes e s t)) \<le> Suc (setItem_calls s) \<and>
   (setItem_calls (snd (importPalettes e s t)) \<noteq> setItem_calls s \<longrightarrow>
      (\<exists>rs. JSON_parse e t = Inr (JArr rs) \<and> (\<exists>r\<in>set rs. acceptable r))) \<and>
   (item (snd (importPalettes e s t)) \<noteq> item s \<longrightarrow>
      setItem_calls (snd (importPalettes e s t)) = Suc (setItem_calls s)) \<and>
   (\<forall>ps rs. getSavedPalettes e s = JArr ps \<and> JSON_parse e t = Inr (JArr rs) \<and>
       item (snd (importPalettes e s t)) \<noteq> item s \<longrightarrow>
       item (snd (importPalettes e s t)) =
         Some (JSON_stringify e (JArr (ps @ imported e (clock_reads s) (random_draws s) rs)))) \<and>
   ((\<forall>rs. JSON_parse e t \<noteq> Inr (JArr rs)) \<longrightarrow>
      (\<exists>m. fst (importPalettes e s t) = (0, [m])) \<and> snd (importPalettes e s t) = s)"
proof (cases "\<exists>rs. JSON_parse e t = Inr (JArr rs)")
  case True
  then obtain rs where rs: "JSON_parse e t = Inr (JArr rs)" ..
  have "\<And>ps. getSavedPalettes e s = JArr ps \<Longrightarrow> item (snd (importPalettes e s t)) \<noteq> item s \<Longrightarrow>
       item (snd (importPalettes e s t)) =
         Some (JSON_stringify e (JArr (ps @ imported e (clock_reads s) (random_draws s) rs)))"
    by (simp add: importPalettes_array [OF rs] split: if_splits option.splits)
  with importPalettes_frame [OF rs, of s] rs show ?thesis
    by auto
next
  case False
  then have none: "\<forall>rs. JSON_parse e t \<noteq> Inr (JArr rs)" by simp
  from importPalettes_not_array [OF none, of s] none show ?thesis
    by auto
qed

lemma sunset_acceptable: "acceptable (palette_json sunset)"
  by (simp add: acceptable_def palette_json_def field_def sunset_def)

theorem import_writes_at_most_once_witness:
  "setItem_calls (snd (importPalettes ref_env empty_state sunset_text)) = 1 \<and>
   JSON_parse ref_env sunset_text = Inr (JArr [palette_json sunset]) \<and>
   acceptable (palette_json sunset) \<and>
   item (snd (importPalettes ref_env empty_state sunset_text)) =
     Some (JSON_stringify ref_env (JArr ([] @ imported ref_env 0 0 [palette_json sunset]))) \<and>
   fst (importPalettes ref_env empty_state gibberish) = (0, [''Failed to parse JSON: Unexpected token'']) \<and>
   snd (importPalettes ref_env empty_state gibberish) = empty_state"
proof -
  have p: "JSON_parse ref_env sunset_text = Inr (JArr [palette_json sunset])"
    by (simp add: ref_env_def sunset_text_def ref_parse_stringify)
  have g: "getSavedPalettes ref_env empty_state = JArr []"
    by (simp add: empty_read empty_state_def)
  have w: "\<And>v. setItem_throws ref_env v = None"
    by (simp add: ref_env_def)
  have calls: "setItem_calls (snd (importPalettes ref_env empty_state sunset_text)) = 1"
    by (simp add: importPalettes_array [OF p g] sunset_acceptable w) (simp add: empty_state_def)
  have changed: "item (snd (importPalettes ref_env empty_state sunset_text)) \<noteq> item empty_state"
    by (simp add: importPalettes_array [OF p g] sunset_acceptable w) (simp add: empty_state_def)
  have bad: "\<forall>rs. JSON_parse ref_env gibberish \<noteq> Inr (JArr rs)"
    by (simp add: ref_env_def ref_parse_def gibberish_def)
  have msg: "fst (importPalettes ref_env empty_state gibberish) = (0, [''Failed to parse JSON: Unexpected token''])"
    by (simp add: importPalettes_def ref_env_def ref_parse_def gibberish_def)
  from import_writes_at_most_once [of ref_env empty_state sunset_text]
    import_writes_at_most_once [of ref_env empty_state gibberish]
    p g calls changed bad msg sunset_acceptable
  show ?thesis
    by (simp add: empty_state_def)
qed

section \<open>Which records an import accepts\<close>

lemma field_validPalette:
  "field (validPalette i now p n cs) ''id'' = Some (JStr i)"
  "field (validPalette i now p n cs) ''name'' = Some n"
  "field (validPalette i now p n cs) ''description'' = Some (or_default (field p ''description'') (JStr []))"
  "field (validPalette i now p n cs) ''colors'' = Some cs"
  "field (validPalette i now p n cs) ''colorTheory'' = Some (or_default (field p ''colorTheory'') (JStr []))"
  "field (validPalette i now p n cs) ''useCases'' = Some (or_default (field p ''useCases'') (JArr []))"
  "field (validPalette i now p n cs) ''category'' = Some (or_default (field p ''category'') (JStr ''custom''))"
  "field (validPalette i now p n cs) ''createdAt'' = Some (or_default (field p ''createdAt'') (JStr now))"
  "field (validPalette i now p n cs) ''updatedAt'' = Some (JStr now)"
  by (simp_all add: validPalette_def field_def)

lemma acceptable_iff:
  "acceptable r \<longleftrightarrow> (\<exists>n cs. field r ''name'' = Some n \<and> truthy n \<and> field r ''colors'' = Some (JArr cs))"
  by (auto simp: acceptable_def split: option.splits json.splits)

lemma length_imported: "length (imported e c r rs) = length (filter acceptable rs)"
  by (induction rs arbitrary: c r) simp_all

lemma imported_nth:
  "k < length (filter acceptable rs) \<Longrightarrow>
   imported e c r rs ! k =
     validPalette (generated_id e (c + 2 * k) (r + k)) (toISOString e (Date_now e (Suc (c + 2 * k))))
       (filter acceptable rs ! k) (the (field (filter acceptable rs ! k) ''name''))
       (the (field (filter acceptable rs ! k) ''colors''))"
proof (induction rs arbitrary: c r k)
  case Nil
  then show ?case by simp
next
  case (Cons p rs)
  show ?case
  proof (cases "acceptable p")
    case True
    show ?thesis
    proof (cases k)
      case 0
      with True show ?thesis by simp
    next
      case (Suc j)
      with True Cons.prems have "j < length (filter acceptable rs)" by simp
      from Cons.IH [OF this, of "Suc (Suc c)" "Suc r"] True Suc show ?thesis by simp
    qed
  next
    case False
    with Cons show ?thesis by simp
  qed
qed

lemma empty_name_rejected:
  "field r ''name'' = Some (JStr []) \<Longrightarrow> \<not> acceptable r \<and> rejection e r = ''Invalid palette: unnamed''"
  by (cases r) (simp_all add: acceptable_def rejection_def field_def)

lemma imported_names:
  "map (\<lambda>n. field n ''name'') (imported e c r rs) = map (\<lambda>r. field r ''name'') (filter acceptable rs)"
  by (induction rs arbitrary: c r) (auto simp: field_validPalette acceptable_iff)

lemma importPalettes_accepted:
  assumes "JSON_parse e t = Inr (JArr rs)" and "getSavedPalettes e s = JArr ps"
    and "setItem_throws e (JSON_stringify e (JArr (ps @ imported e (clock_reads s) (random_draws s) rs))) = None"
  shows "fst (importPalettes e s t) =
           (length (filter acceptable rs), map (rejection e) (filter (\<lambda>r. \<not> acceptable r) rs))"
    and "(\<exists>r\<in>set rs. acceptable r) \<Longrightarrow>
         item (snd (importPalettes e s t)) =
           Some (JSON_stringify e (JArr (ps @ imported e (clock_reads s) (random_draws s) rs)))"
    and "\<not> (\<exists>r\<in>set rs. acceptable r) \<Longrightarrow> snd (importPalettes e s t) = s"
proof -
  show "fst (importPalettes e s t) =
           (length (filter acceptable rs), map (rejection e) (filter (\<lambda>r. \<not> acceptable r) rs))"
  proof (cases "\<exists>r\<in>set rs. acceptable r")
    case True
    with assms show ?thesis by (simp add: importPalettes_array)
  next
    case False
    then have "filter acceptable rs = []" "filter (\<lambda>r. \<not> acceptable r) rs = rs"
      by (simp_all add: filter_empty_conv filter_id_conv)
    with False assms show ?thesis by (simp add: importPalettes_array)
  qed
  show "(\<exists>r\<in>set rs. acceptable r) \<Longrightarrow>
         item (snd (importPalettes e s t)) =
           Some (JSON_stringify e (JArr (ps @ imported e (clock_reads s) (random_draws s) rs)))"
    using assms by (simp add: importPalettes_array)
  show "\<not> (\<exists>r\<in>set rs. acceptable r) \<Longrightarrow> snd (importPalettes e s t) = s"
    using assms by (simp add: importPalettes_array)
qed

text \<open>
  C10. With the stored collection an array and the write accepted, \<^verbatim>\<open>importPalettes\<close>
  accepts exactly the records whose \<open>name\<close> is truthy and whose \<open>colors\<close> is an array:
  the success count is their number, the records appended to the stored collection are
  built from them in order, and each other record is reported with one message. In
  particular a record whose name is the empty string is not accepted and its message is
  \<^verbatim>\<open>Invalid palette: unnamed\<close>.
\<close>

theorem import_accepts_truthy_name_and_array_colors:
  assumes "JSON_parse e t = Inr (JArr rs)" and "getSavedPalettes e s = JArr ps"
    and "setItem_throws e (JSON_stringify e (JArr (ps @ imported e (clock_reads s) (random_draws s) rs))) = None"
  shows "fst (importPalettes e s t) =
           (length (filter acceptable rs), map (rejection e) (filter (\<lambda>r. \<not> acceptable r) rs)) \<and>
         ((\<exists>r\<in>set rs. acceptable r) \<longrightarrow>
            item (snd (importPalettes e s t)) =
              Some (JSON_stringify e (JArr (ps @ imported e (clock_reads s) (random_draws s) rs)))) \<and>
         map (\<lambda>n. field n ''name'') (imported e (clock_reads s) (random_draws s) rs) =
           map (\<lambda>r. field r ''name'') (filter acceptable rs) \<and>
         (\<forall>r. acceptable r \<longleftrightarrow>
            (\<exists>n cs. field r ''name'' = Some n \<and> truthy n \<and> field r ''colors'' = Some (JArr cs))) \<and>
         (\<forall>r. field r ''name'' = Some (JStr []) \<longrightarrow>
            \<not> acceptable r \<and> rejection e r = ''Invalid palette: unnamed'')"
  using importPalettes_accepted(1,2) [OF assms] imported_names acceptable_iff empty_name_rejected
  by blast

theorem import_accepts_truthy_name_and_array_colors_witness:
  "field unnamed_record ''name'' = Some (JStr []) \<and>
   field unnamed_record ''colors'' = Some (JArr []) \<and>
   fst (importPalettes ref_env sunset_state unnamed_text) = (0, [''Invalid palette: unnamed'']) \<and>
   fst (importPalettes ref_env empty_state sunset_text) = (1, []) \<and>
   item (snd (importPalettes ref_env empty_state sunset_text)) =
     Some (JSON_stringify ref_env (JArr (imported ref_env 0 0 [palette_json sunset])))"
proof -
  have p: "JSON_parse ref_env unnamed_text = Inr (JArr [unnamed_record])"
    by (simp add: ref_env_def unnamed_text_def ref_parse_stringify)
  have g: "getSavedPalettes ref_env sunset_state = JArr [palette_json sunset]"
    by (rule sunset_read)
  have w: "\<And>v. setItem_throws ref_env v = None"
    by (simp add: ref_env_def)
  have f: "field unnamed_record ''name'' = Some (JStr [])" "field unnamed_record ''colors'' = Some (JArr [])"
    by (simp_all add: unnamed_record_def field_def)
  have p2: "JSON_parse ref_env sunset_text = Inr (JArr [palette_json sunset])"
    by (simp add: ref_env_def sunset_text_def ref_parse_stringify)
  have g2: "getSavedPalettes ref_env empty_state = JArr []"
    by (simp add: empty_read empty_state_def)
  have a: "acceptable (palette_json sunset)"
    by (rule sunset_acceptable)
  have c: "clock_reads empty_state = 0" "random_draws empty_state = 0"
    by (simp_all add: empty_state_def)
  from import_accepts_truthy_name_and_array_colors [OF p g w]
    import_accepts_truthy_name_and_array_colors [OF p2 g2 w] f a c
  show ?thesis by simp
qed

section \<open>Validation and defaults of an import\<close>

lemma missing_required_rejected:
  "field r ''name'' = None \<or> (\<forall>cs. field r ''colors'' \<noteq> Some (JArr cs)) \<Longrightarrow> \<not> acceptable r"
  by (auto simp: acceptable_iff)

lemma imported_record_fields:
  assumes "k < length (filter acceptable rs)"
  shows "let r = filter acceptable rs ! k;
             n = imported e c r0 rs ! k;
             now = JStr (toISOString e (Date_now e (Suc (c + 2 * k))))
         in field n ''id'' = Some (JStr (generated_id e (c + 2 * k) (r0 + k))) \<and>
            field n ''updatedAt'' = Some now \<and>
            field n ''name'' = field r ''name'' \<and>
            field n ''colors'' = field r ''colors'' \<and>
            field n ''createdAt'' =
              Some (case field r ''createdAt'' of None \<Rightarrow> now | Some v \<Rightarrow> if truthy v then v else now) \<and>
            (field r ''description'' = None \<longrightarrow> field n ''description'' = Some (JStr [])) \<and>
            (field r ''colorTheory'' = None \<longrightarrow> field n ''colorTheory'' = Some (JStr [])) \<and>
            (field r ''useCases'' = None \<longrightarrow> field n ''useCases'' = Some (JArr [])) \<and>
            (field r ''category'' = None \<longrightarrow> field n ''category'' = Some (JStr ''custom''))"
proof -
  from assms have "filter acceptable rs ! k \<in> set (filter acceptable rs)"
    by (rule nth_mem)
  then have acc: "acceptable (filter acceptable rs ! k)" by simp
  then obtain n cs where
    "field (filter acceptable rs ! k) ''name'' = Some n"
    "field (filter acceptable rs ! k) ''colors'' = Some (JArr cs)"
    by (auto simp: acceptable_iff)
  then show ?thesis
    by (simp add: imported_nth [OF assms] field_validPalette Let_def split: option.splits)
qed

text \<open>
  C3, as the specification has it, fails: a record whose \<open>createdAt\<close> is present but is
  the empty string is stored with the time of the import as \<open>createdAt\<close>.
\<close>

theorem import_createdAt_counterexample:
  "JSON_parse ref_env blank_text = Inr (JArr [blank_created]) \<and>
   field blank_created ''createdAt'' = Some (JStr []) \<and>
   fst (importPalettes ref_env empty_state blank_text) = (1, []) \<and>
   item (snd (importPalettes ref_env empty_state blank_text)) =
     Some (JSON_stringify ref_env
       (JArr [validPalette (generated_id ref_env 0 0) (toISOString ref_env (Date_now ref_env 1))
                blank_created (JStr ''A'') (JArr [])])) \<and>
   field (validPalette (generated_id ref_env 0 0) (toISOString ref_env (Date_now ref_env 1))
            blank_created (JStr ''A'') (JArr [])) ''createdAt'' =
     Some (JStr (toISOString ref_env (Date_now ref_env 1))) \<and>
   JStr (toISOString ref_env (Date_now ref_env 1)) \<noteq> JStr []"
proof -
  have p: "JSON_parse ref_env blank_text = Inr (JArr [blank_created])"
    by (simp add: ref_env_def blank_text_def ref_parse_stringify)
  have g: "getSavedPalettes ref_env empty_state = JArr []"
    by (simp add: empty_read empty_state_def)
  have w: "\<And>v. setItem_throws ref_env v = None"
    by (simp add: ref_env_def)
  have a: "acceptable blank_created"
    by (simp add: blank_created_def acceptable_def field_def)
  have f: "field blank_created ''createdAt'' = Some (JStr [])" "field blank_created ''name'' = Some (JStr ''A'')"
    "field blank_created ''colors'' = Some (JArr [])"
    by (simp_all add: blank_created_def field_def)
  have c: "clock_reads empty_state = 0" "random_draws empty_state = 0"
    by (simp_all add: empty_state_def)
  have n: "toISOString ref_env (Date_now ref_env 1) \<noteq> []"
    by (simp add: ref_env_def)
  show ?thesis
    using p f n by (simp add: importPalettes_array [OF p g] a w c field_validPalette)
qed

text \<open>
  C3, amended. With the stored collection an array and the write accepted: every record of
  the batch is judged on its own; a record without \<open>name\<close> or without an array
  \<open>colors\<close> is skipped, each skipped record is reported with one message, and the success
  count is the number of accepted records. The \<open>k\<close>-th accepted record is stored with a
  generated id, \<open>updatedAt\<close> the time of its import, its \<open>name\<close> and \<open>colors\<close>, the
  input's \<open>createdAt\<close> when that is present and truthy and the time of its import
  otherwise, and the defaults for the optional fields that are absent.
\<close>

theorem import_validation_and_defaults:
  assumes "JSON_parse e t = Inr (JArr rs)" and "getSavedPalettes e s = JArr ps"
    and "setItem_throws e (JSON_stringify e (JArr (ps @ imported e (clock_reads s) (random_draws s) rs))) = None"
  shows "fst (fst (importPalettes e s t)) = length (filter acceptable rs) \<and>
         length (snd (fst (importPalettes e s t))) = length (filter (\<lambda>r. \<not> acceptable r) rs) \<and>
         (\<forall>r. field r ''name'' = None \<or> (\<forall>cs. field r ''colors'' \<noteq> Some (JArr cs)) \<longrightarrow> \<not> acceptable r) \<and>
         ((\<exists>r\<in>set rs. acceptable r) \<longrightarrow>
            item (snd (importPalettes e s t)) =
              Some (JSON_stringify e (JArr (ps @ imported e (clock_reads s) (random_draws s) rs)))) \<and>
         length (imported e (clock_reads s) (random_draws s) rs) = length (filter acceptable rs) \<and>
         (\<forall>k<length (filter acceptable rs).
            let r = filter acceptable rs ! k;
                n = imported e (clock_reads s) (random_draws s) rs ! k;
                now = JStr (toISOString e (Date_now e (Suc (clock_reads s + 2 * k))))
            in field n ''id'' = Some (JStr (generated_id e (clock_reads s + 2 * k) (random_draws s + k))) \<and>
               field n ''updatedAt'' = Some now \<and>
               field n ''name'' = field r ''name'' \<and>
               field n ''colors'' = field r ''colors'' \<and>
               field n ''createdAt'' =
                 Some (case field r ''createdAt'' of None \<Rightarrow> now | Some v \<Rightarrow> if truthy v then v else now) \<and>
               (field r ''description'' = None \<longrightarrow> field n ''description'' = Some (JStr [])) \<and>
               (field r ''colorTheory'' = None \<longrightarrow> field n ''colorTheory'' = Some (JStr [])) \<and>
               (field r ''useCases'' = None \<longrightarrow> field n ''useCases'' = Some (JArr [])) \<and>
               (field r ''category'' = None \<longrightarrow> field n ''category'' = Some (JStr ''custom'')))"
proof (intro conjI allI impI)
  show "fst (fst (importPalettes e s t)) = length (filter acceptable rs)"
    by (simp add: importPalettes_accepted(1) [OF assms])
  show "length (snd (fst (importPalettes e s t))) = length (filter (\<lambda>r. \<not> acceptable r) rs)"
    by (simp add: importPalettes_accepted(1) [OF assms])
  show "\<not> acceptable r" if "field r ''name'' = None \<or> (\<forall>cs. field r ''colors'' \<noteq> Some (JArr cs))" for r
    using that by (rule missing_required_rejected)
  show "item (snd (importPalettes e s t)) =
          Some (JSON_stringify e (JArr (ps @ imported e (clock_reads s) (random_draws s) rs)))"
    if "\<exists>r\<in>set rs. acceptable r"
    using that by (rule importPalettes_accepted(2) [OF assms])
  show "length (imported e (clock_reads s) (random_draws s) rs) = length (filter acceptable rs)"
    by (rule length_imported)
  show "let r = filter acceptable rs ! k;
            n = imported e (clock_reads s) (random_draws s) rs ! k;
            now = JStr (toISOString e (Date_now e (Suc (clock_reads s + 2 * k))))
        in field n ''id'' = Some (JStr (generated_id e (clock_reads s + 2 * k) (random_draws s + k))) \<and>
           field n ''updatedAt'' = Some now \<and>
           field n ''name'' = field r ''name'' \<and>
           field n ''colors'' = field r ''colors'' \<and>
           field n ''createdAt'' =
             Some (case field r ''createdAt'' of None \<Rightarrow> now | Some v \<Rightarrow> if truthy v then v else now) \<and>
           (field r ''description'' = None \<longrightarrow> field n ''description'' = Some (JStr [])) \<and>
           (field r ''colorTheory'' = None \<longrightarrow> field n ''colorTheory'' = Some (JStr [])) \<and>
           (field r ''useCases'' = None \<longrightarrow> field n ''useCases'' = Some (JArr [])) \<and>
           (field r ''category'' = None \<longrightarrow> field n ''category'' = Some (JStr ''custom''))"
    if "k < length (filter acceptable rs)" for k
    using that by (rule imported_record_fields)
qed

lemma scenario_filter:
  "filter acceptable scenario_records = [JObj [(''name'', JStr ''Good''), (''colors'', JArr [])]]"
  "filter (\<lambda>r. \<not> acceptable r) scenario_records = [JObj [(''colors'', JArr [])]]"
  by (simp_all add: scenario_records_def acceptable_def field_def)

theorem import_validation_and_defaults_witness:
  "JSON_parse ref_env scenario_text = Inr (JArr scenario_records) \<and>
   fst (fst (importPalettes ref_env empty_state scenario_text)) = 1 \<and>
   length (snd (fst (importPalettes ref_env empty_state scenario_text))) = 1 \<and>
   item (snd (importPalettes ref_env empty_state scenario_text)) =
     Some (JSON_stringify ref_env (JArr (imported ref_env 0 0 scenario_records))) \<and>
   field (imported ref_env 0 0 scenario_records ! 0) ''id'' = Some (JStr (generated_id ref_env 0 0)) \<and>
   field (imported ref_env 0 0 scenario_records ! 0) ''name'' = Some (JStr ''Good'') \<and>
   field (imported ref_env 0 0 scenario_records ! 0) ''description'' = Some (JStr []) \<and>
   field (imported ref_env 0 0 scenario_records ! 0) ''colorTheory'' = Some (JStr []) \<and>
   field (imported ref_env 0 0 scenario_records ! 0) ''useCases'' = Some (JArr []) \<and>
   field (imported ref_env 0 0 scenario_records ! 0) ''category'' = Some (JStr ''custom'') \<and>
   field (imported ref_env 0 0 scenario_records ! 0) ''createdAt'' =
     Some (JStr (toISOString ref_env (Date_now ref_env 1))) \<and>
   field (imported ref_env 0 0 scenario_records ! 0) ''updatedAt'' =
     Some (JStr (toISOString ref_env (Date_now ref_env 1)))"
proof -
  have p: "JSON_parse ref_env scenario_text = Inr (JArr scenario_records)"
    by (simp add: ref_env_def scenario_text_def ref_parse_stringify)
  have g: "getSavedPalettes ref_env empty_state = JArr []"
    by (simp add: empty_read empty_state_def)
  have w: "\<And>v. setItem_throws ref_env v = None"
    by (simp add: ref_env_def)
  have c: "clock_reads empty_state = 0" "random_draws empty_state = 0"
    by (simp_all add: empty_state_def)
  have a: "\<exists>r\<in>set scenario_records. acceptable r"
    by (simp add: scenario_records_def acceptable_def field_def)
  from import_validation_and_defaults [OF p g w] p a c
  show ?thesis
    by (simp add: scenario_filter field_def Let_def)
qed

section \<open>Export followed by import\<close>










section \<open>Search\<close>


















section \<open>The error slot of the view-model\<close>

lemma patch_mirror_total:
  "\<forall>p\<in>set ps. p \<noteq> JNull \<Longrightarrow> \<exists>r s'. patch_mirror e s i u ps = Inr (r, s')"
proof (induction ps arbitrary: s)
  case Nil
  then show ?case by simp
next
  case (Cons p ps)
  then have p: "p \<noteq> JNull" and rest: "\<forall>p\<in>set ps. p \<noteq> JNull" by simp_all
  from Cons.IH [OF rest] obtain r1 s1 where
    a: "patch_mirror e (snd (now_iso e s)) i u ps = Inr (r1, s1)" by blast
  from Cons.IH [OF rest] obtain r2 s2 where
    b: "patch_mirror e s i u ps = Inr (r2, s2)" by blast
  show ?case
    using p a b by (cases "field p ''id'' = Some (JStr i)") (simp_all add: id_is_field split_beta)
qed

lemma filter_id_ne_total:
  "\<forall>p\<in>set ps. p \<noteq> JNull \<Longrightarrow> \<exists>r. filter_id_ne ps i = Inr r"
  by (induction ps) (auto simp: id_is_field)

lemma sunset_not_found:
  "updatePalette ref_env sunset_state ''palette_9_z'' u = (Inr False, sunset_state)"
  "deletePalette ref_env sunset_state ''palette_9_z'' = (Inr False, sunset_state)"
  by (simp_all add: updatePalette_def deletePalette_def sunset_read id_is_def palette_json_def
      sunset_def)

text \<open>
  C9, as the specification has it, fails: when \<^verbatim>\<open>updatePalette\<close> or \<^verbatim>\<open>deletePalette\<close>
  returns false, the hook returns false and leaves the error slot as it was, here empty.
\<close>

theorem error_slot_counterexample:
  "error quiet_vm = None \<and>
   fst (updatePalette ref_env sunset_state ''palette_9_z'' [(''name'', JStr ''X'')]) = Inr False \<and>
   updateExistingPalette ref_env sunset_state quiet_vm ''palette_9_z'' [(''name'', JStr ''X'')] =
     Inr (False, sunset_state, quiet_vm) \<and>
   fst (deletePalette ref_env sunset_state ''palette_9_z'') = Inr False \<and>
   removePalette ref_env sunset_state quiet_vm ''palette_9_z'' = Inr (False, sunset_state, quiet_vm)"
  by (simp add: updateExistingPalette_def removePalette_def sunset_not_found quiet_vm_def)

text \<open>
  C9, amended. In \<^verbatim>\<open>updateExistingPalette\<close> and \<^verbatim>\<open>removePalette\<close> the error slot is set
  to the message when the repository call raises, is cleared when the call returns true,
  and is left unchanged when the call returns false. (The mirror has no \<^verbatim>\<open>null\<close>
  element.)
\<close>

theorem error_slot_of_update_and_delete:
  assumes "\<forall>p\<in>set (palettes v). p \<noteq> JNull"
  shows "(case updatePalette e s i u of
            (Inl ex, s1) \<Rightarrow>
              updateExistingPalette e s v i u = Inr (False, s1, v\<lparr>error := Some (message ex)\<rparr>)
          | (Inr False, s1) \<Rightarrow> updateExistingPalette e s v i u = Inr (False, s1, v)
          | (Inr True, s1) \<Rightarrow>
              (\<exists>ps s2. updateExistingPalette e s v i u = Inr (True, s2, v\<lparr>palettes := ps, error := None\<rparr>))) \<and>
         (case deletePalette e s i of
            (Inl ex, s1) \<Rightarrow>
              removePalette e s v i = Inr (False, s1, v\<lparr>error := Some (message ex)\<rparr>)
          | (Inr False, s1) \<Rightarrow> removePalette e s v i = Inr (False, s1, v)
          | (Inr True, s1) \<Rightarrow>
              (\<exists>ps. removePalette e s v i = Inr (True, s1, v\<lparr>palettes := ps, error := None\<rparr>)))"
proof
  obtain res s1 where u: "updatePalette e s i u = (res, s1)"
    by (cases "updatePalette e s i u") auto
  from patch_mirror_total [OF assms] obtain ps s2 where
    pm: "patch_mirror e s1 i u (palettes v) = Inr (ps, s2)" by blast
  show "case updatePalette e s i u of
            (Inl ex, s1) \<Rightarrow>
              updateExistingPalette e s v i u = Inr (False, s1, v\<lparr>error := Some (message ex)\<rparr>)
          | (Inr False, s1) \<Rightarrow> updateExistingPalette e s v i u = Inr (False, s1, v)
          | (Inr True, s1) \<Rightarrow>
              (\<exists>ps s2. updateExistingPalette e s v i u = Inr (True, s2, v\<lparr>palettes := ps, error := None\<rparr>))"
    using u pm by (auto simp: updateExistingPalette_def split: sum.splits bool.splits)
next
  obtain res s1 where d: "deletePalette e s i = (res, s1)"
    by (cases "deletePalette e s i") auto
  from filter_id_ne_total [OF assms] obtain ps where
    fm: "filter_id_ne (palettes v) i = Inr ps" by blast
  show "case deletePalette e s i of
            (Inl ex, s1) \<Rightarrow>
              removePalette e s v i = Inr (False, s1, v\<lparr>error := Some (message ex)\<rparr>)
          | (Inr False, s1) \<Rightarrow> removePalette e s v i = Inr (False, s1, v)
          | (Inr True, s1) \<Rightarrow>
              (\<exists>ps. removePalette e s v i = Inr (True, s1, v\<lparr>palettes := ps, error := None\<rparr>))"
    using d fm by (auto simp: removePalette_def split: sum.splits bool.splits)
qed

lemma broken_read: "getSavedPalettes ref_env broken_state = JNum 5"
  by (simp add: getSavedPalettes_def ref_env_def broken_state_def ref_parse_stringify)
    (simp add: ref_stringify_def)

lemma sunset_found:
  "fst (updatePalette ref_env sunset_state ''palette_1_a'' u) = Inr True"
  "fst (deletePalette ref_env sunset_state ''palette_1_a'') = Inr True"
  by (simp_all add: updatePalette_def deletePalette_def sunset_read id_is_def palette_json_def
      sunset_def setItem_def now_iso_def Let_def, simp_all add: ref_env_def)

theorem error_slot_of_update_and_delete_witness:
  "error stale_vm = Some ''Failed to save palette'' \<and>
   updateExistingPalette ref_env sunset_state stale_vm ''palette_9_z'' [(''name'', JStr ''X'')] =
     Inr (False, sunset_state, stale_vm) \<and>
   (\<exists>ps s2. updateExistingPalette ref_env sunset_state stale_vm ''palette_1_a'' [(''name'', JStr ''X'')] =
     Inr (True, s2, stale_vm\<lparr>palettes := ps, error := None\<rparr>)) \<and>
   (\<exists>ps s2. removePalette ref_env sunset_state stale_vm ''palette_1_a'' =
     Inr (True, s2, stale_vm\<lparr>palettes := ps, error := None\<rparr>)) \<and>
   updateExistingPalette ref_env broken_state stale_vm ''palette_1_a'' [(''name'', JStr ''X'')] =
     Inr (False, broken_state, stale_vm\<lparr>error := Some ''palettes.findIndex is not a function''\<rparr>)"
proof -
  have m: "\<forall>p\<in>set (palettes stale_vm). p \<noteq> JNull"
    by (simp add: stale_vm_def palette_json_def)
  have b: "updatePalette ref_env broken_state ''palette_1_a'' [(''name'', JStr ''X'')] =
      (Inl (TypeError ''palettes.findIndex is not a function''), broken_state)"
    by (simp add: updatePalette_def broken_read)
  obtain s1 where u1: "updatePalette ref_env sunset_state ''palette_1_a'' [(''name'', JStr ''X'')] = (Inr True, s1)"
    using sunset_found(1) [of "[(''name'', JStr ''X'')]"]
    by (cases "updatePalette ref_env sunset_state ''palette_1_a'' [(''name'', JStr ''X'')]") auto
  obtain s2 where d1: "deletePalette ref_env sunset_state ''palette_1_a'' = (Inr True, s2)"
    using sunset_found(2) by (cases "deletePalette ref_env sunset_state ''palette_1_a''") auto
  have e: "error stale_vm = Some ''Failed to save palette''"
    by (simp add: stale_vm_def)
  from error_slot_of_update_and_delete [OF m, of ref_env sunset_state "''palette_9_z''" "[(''name'', JStr ''X'')]"]
    error_slot_of_update_and_delete [OF m, of ref_env sunset_state "''palette_1_a''" "[(''name'', JStr ''X'')]"]
    error_slot_of_update_and_delete [OF m, of ref_env broken_state "''palette_1_a''" "[(''name'', JStr ''X'')]"]
    b u1 d1 e
  show ?thesis
    by (auto simp: sunset_not_found)
qed

section \<open>What each operation does to the stored text\<close>

lemma getSavedPalettes_counters [simp]:
  "getSavedPalettes e (s\<lparr>clock_reads := c\<rparr>) = getSavedPalettes e s"
  "getSavedPalettes e (s\<lparr>random_draws := r\<rparr>) = getSavedPalettes e s"
  "getSavedPalettes e (s\<lparr>setItem_calls := n\<rparr>) = getSavedPalettes e s"
  by (simp_all add: getSavedPalettes_def)

lemma field_set_prop:
  "field (JObj (set_prop kv k v)) k' = (if k' = k then Some v else field (JObj kv) k')"
  by (simp add: field_def set_prop_def update_conv')

lemma field_saved_record:
  "field (saved_record e c r d) ''id'' = Some (JStr (generated_id e c r))"
  "field (saved_record e c r d) ''createdAt'' = Some (JStr (toISOString e (Date_now e (Suc c))))"
  "field (saved_record e c r d) ''updatedAt'' = Some (JStr (toISOString e (Date_now e (Suc c))))"
  by (simp_all add: saved_record_def field_set_prop)

lemma savePalette_effect:
  assumes "getSavedPalettes e s = JArr ps"
  shows "clock_reads (snd (savePalette e s d)) = Suc (Suc (clock_reads s)) \<and>
         random_draws (snd (savePalette e s d)) = Suc (random_draws s) \<and>
         (item (snd (savePalette e s d)) = item s \<or>
          item (snd (savePalette e s d)) =
            Some (JSON_stringify e (JArr (ps @ [saved_record e (clock_reads s) (random_draws s) d]))))"
  using assms
  by (simp add: savePalette_def generateId_def now_iso_def setItem_def Let_def saved_record_def
      split: option.splits)

lemma filter_id_ne_filter:
  "filter_id_ne ps i = Inr qs \<Longrightarrow> qs = filter (\<lambda>p. id_is p i \<noteq> Inr True) ps"
proof (induction ps arbitrary: qs)
  case Nil
  then show ?case by simp
next
  case (Cons p ps)
  then show ?case
    by (auto split: sum.splits if_splits)
qed

lemma findIndex_id_bound:
  "findIndex_id ps i = Inr (Some k) \<Longrightarrow> k < length ps"
proof (induction ps arbitrary: k)
  case Nil
  then show ?case by simp
next
  case (Cons p ps)
  then show ?case
    by (auto split: sum.splits bool.splits option.splits)
qed

lemma updatePalette_effect:
  assumes "getSavedPalettes e s = JArr ps"
  shows "snd (updatePalette e s i u) = s \<or>
         (\<exists>k<length ps.
            clock_reads (snd (updatePalette e s i u)) = Suc (clock_reads s) \<and>
            random_draws (snd (updatePalette e s i u)) = random_draws s \<and>
            (item (snd (updatePalette e s i u)) = item s \<or>
             item (snd (updatePalette e s i u)) =
               Some (JSON_stringify e (JArr (ps[k := updated_record e (clock_reads s) (ps ! k) u])))))"
proof (cases "findIndex_id ps i")
  case (Inl ex)
  with assms show ?thesis by (simp add: updatePalette_def)
next
  case (Inr found)
  show ?thesis
  proof (cases found)
    case None
    with Inr assms show ?thesis by (simp add: updatePalette_def)
  next
    case (Some k)
    with Inr have f: "findIndex_id ps i = Inr (Some k)" by simp
    from findIndex_id_bound [OF f] have "k < length ps" .
    then show ?thesis
      by (auto simp: updatePalette_found [OF assms f] split: option.splits)
  qed
qed

lemma deletePalette_effect:
  assumes "getSavedPalettes e s = JArr ps"
  shows "clock_reads (snd (deletePalette e s i)) = clock_reads s \<and>
         random_draws (snd (deletePalette e s i)) = random_draws s \<and>
         (item (snd (deletePalette e s i)) = item s \<or>
          (\<exists>qs. set qs \<subseteq> set ps \<and>
             item (snd (deletePalette e s i)) = Some (JSON_stringify e (JArr qs))))"
proof (cases "filter_id_ne ps i")
  case (Inl ex)
  with assms show ?thesis by (simp add: deletePalette_def)
next
  case (Inr qs)
  from filter_id_ne_filter [OF Inr] have "set qs \<subseteq> set ps" by auto
  with Inr assms show ?thesis
    by (auto simp: deletePalette_def setItem_def split: option.splits)
qed

lemma importPalettes_effect:
  assumes "getSavedPalettes e s = JArr ps"
  shows "snd (importPalettes e s t) = s \<or>
         (\<exists>rs. clock_reads (snd (importPalettes e s t)) = clock_reads s + 2 * length (filter acceptable rs) \<and>
               random_draws (snd (importPalettes e s t)) = random_draws s + length (filter acceptable rs) \<and>
               (item (snd (importPalettes e s t)) = item s \<or>
                item (snd (importPalettes e s t)) =
                  Some (JSON_stringify e (JArr (ps @ imported e (clock_reads s) (random_draws s) rs)))))"
proof (cases "\<exists>rs. JSON_parse e t = Inr (JArr rs)")
  case True
  then obtain rs where rs: "JSON_parse e t = Inr (JArr rs)" ..
  show ?thesis
    by (rule disjI2, rule exI [of _ rs])
      (auto simp: importPalettes_array [OF rs assms] filter_empty_conv split: option.splits)
next
  case False
  then have "\<forall>rs. JSON_parse e t \<noteq> Inr (JArr rs)" by simp
  from importPalettes_not_array [OF this] show ?thesis by simp
qed

lemma savePalette_array:
  assumes "getSavedPalettes e s = JArr ps"
  shows "savePalette e s d =
     (case setItem_throws e (JSON_stringify e (JArr (ps @ [saved_record e (clock_reads s) (random_draws s) d]))) of
        None \<Rightarrow>
          (Inr (generated_id e (clock_reads s) (random_draws s)),
           s\<lparr>item := Some (JSON_stringify e (JArr (ps @ [saved_record e (clock_reads s) (random_draws s) d]))),
             clock_reads := Suc (Suc (clock_reads s)), random_draws := Suc (random_draws s),
             setItem_calls := Suc (setItem_calls s)\<rparr>)
      | Some ex \<Rightarrow>
          (Inl (Error ''Failed to save palette''),
           s\<lparr>clock_reads := Suc (Suc (clock_reads s)), random_draws := Suc (random_draws s),
             setItem_calls := Suc (setItem_calls s)\<rparr>))"
  using assms
  by (simp add: savePalette_def generateId_def now_iso_def setItem_def Let_def saved_record_def
      split: option.splits)

section \<open>Uniqueness of ids\<close>

lemma ids_generated_before_Nil [simp]: "ids_generated_before e c r []"
  by (simp add: ids_generated_before_def)














section \<open>Timestamps under update\<close>

lemma stamped_before_Nil [simp]: "stamped_before e c []"
  by (simp add: stamped_before_def)

lemma stamps_inv_read:
  assumes "JSON_lawful e" and "stamps_inv e s"
  shows "\<exists>ps. getSavedPalettes e s = JArr ps \<and> stamped_before e (clock_reads s) ps"
proof (cases "window_defined e \<and> item s \<noteq> None")
  case True
  then obtain t where t: "item s = Some t" by auto
  with assms(2) obtain ps where ps: "t = JSON_stringify e (JArr ps)"
    "stamped_before e (clock_reads s) ps"
    by (auto simp: stamps_inv_def)
  from assms(1) True t ps(1) have "getSavedPalettes e s = JArr ps"
    by (simp add: stored_read)
  with ps(2) show ?thesis by blast
next
  case False
  then have "getSavedPalettes e s = JArr []"
    by (auto simp: getSavedPalettes_def)
  then show ?thesis by simp
qed

lemma stamped_mono: "stamped_before e c ps \<Longrightarrow> c \<le> c' \<Longrightarrow> stamped_before e c' ps"
  unfolding stamped_before_def by (meson less_le_trans)

lemma stamped_subset: "stamped_before e c ps \<Longrightarrow> set qs \<subseteq> set ps \<Longrightarrow> stamped_before e c qs"
  unfolding stamped_before_def by blast

lemma record_objects:
  "\<exists>kv. saved_record e c r d = JObj kv"
  "\<exists>kv. updated_record e c p u = JObj kv"
  "\<exists>kv. validPalette i now p n cs = JObj kv"
  by (simp_all add: saved_record_def updated_record_def validPalette_def)

lemma stamped_snoc:
  assumes "stamped_before e c ps" and "c \<le> c'" and "\<exists>kv. n = JObj kv"
    and "field n ''updatedAt'' = Some (JStr (toISOString e (Date_now e d)))" and "d < c'"
  shows "stamped_before e c' (ps @ [n])"
  using stamped_mono [OF assms(1,2)] assms(3,4,5)
  by (auto simp: stamped_before_def)

lemma stamped_update:
  assumes "stamped_before e c ps" and "c \<le> c'" and "\<exists>kv. n = JObj kv"
    and "field n ''updatedAt'' = Some (JStr (toISOString e (Date_now e d)))" and "d < c'"
  shows "stamped_before e c' (ps[k := n])"
proof -
  have "set (ps[k := n]) \<subseteq> insert n (set ps)"
    by (rule set_update_subset_insert)
  with stamped_mono [OF assms(1,2)] assms(3,4,5) show ?thesis
    by (auto simp: stamped_before_def)
qed

lemma field_updated_record:
  "field (updated_record e c p u) ''updatedAt'' = Some (JStr (toISOString e (Date_now e c)))"
  by (simp add: updated_record_def field_set_prop)

lemma stamped_imported:
  "stamped_before e c ps \<Longrightarrow>
   stamped_before e (c + 2 * length (filter acceptable rs)) (ps @ imported e c r rs)"
proof (induction rs arbitrary: ps c r)
  case Nil
  then show ?case by simp
next
  case (Cons p rs)
  show ?case
  proof (cases "acceptable p")
    case True
    let ?n = "validPalette (generated_id e c r) (toISOString e (Date_now e (Suc c))) p
                (the (field p ''name'')) (the (field p ''colors''))"
    have "stamped_before e (Suc (Suc c)) (ps @ [?n])"
      using Cons.prems
      by (rule stamped_snoc [where d = "Suc c"]) (simp_all add: field_validPalette record_objects)
    from Cons.IH [OF this] True show ?thesis by simp
  next
    case False
    with Cons show ?thesis by simp
  qed
qed

lemma stamps_inv_item:
  assumes "stamps_inv e s" and "clock_reads s \<le> clock_reads s'"
    and "item s' = item s \<or>
         (\<exists>qs. item s' = Some (JSON_stringify e (JArr qs)) \<and> stamped_before e (clock_reads s') qs)"
  shows "stamps_inv e s'"
  unfolding stamps_inv_def
proof (intro allI impI)
  fix t
  assume t: "item s' = Some t"
  from assms(3) show "\<exists>ps. t = JSON_stringify e (JArr ps) \<and> stamped_before e (clock_reads s') ps"
  proof
    assume "item s' = item s"
    with t assms(1) obtain ps where "t = JSON_stringify e (JArr ps)"
      "stamped_before e (clock_reads s) ps"
      by (auto simp: stamps_inv_def)
    with stamped_mono [OF this(2) assms(2)] show ?thesis by blast
  next
    assume "\<exists>qs. item s' = Some (JSON_stringify e (JArr qs)) \<and> stamped_before e (clock_reads s') qs"
    with t show ?thesis by auto
  qed
qed

lemma reachable_stamps:
  assumes lawful: "JSON_lawful e"
  shows "reachable e s \<Longrightarrow> stamps_inv e s"
proof (induction rule: reachable.induct)
  case (initial s)
  then show ?case by (simp add: stamps_inv_def)
next
  case (save s d)
  from stamps_inv_read [OF lawful save.IH] obtain ps where
    ps: "getSavedPalettes e s = JArr ps" and good: "stamped_before e (clock_reads s) ps" by blast
  note eff = savePalette_effect [OF ps, of d]
  have "stamped_before e (Suc (Suc (clock_reads s)))
          (ps @ [saved_record e (clock_reads s) (random_draws s) d])"
    using good
    by (rule stamped_snoc [where d = "Suc (clock_reads s)"])
      (simp_all add: field_saved_record record_objects)
  with eff show ?case
    by (intro stamps_inv_item [OF save.IH]) auto
next
  case (update s i u)
  from stamps_inv_read [OF lawful update.IH] obtain ps where
    ps: "getSavedPalettes e s = JArr ps" and good: "stamped_before e (clock_reads s) ps" by blast
  from updatePalette_effect [OF ps, of i u] show ?case
  proof
    assume "snd (updatePalette e s i u) = s"
    with update.IH show ?thesis by simp
  next
    assume "\<exists>k<length ps.
            clock_reads (snd (updatePalette e s i u)) = Suc (clock_reads s) \<and>
            random_draws (snd (updatePalette e s i u)) = random_draws s \<and>
            (item (snd (updatePalette e s i u)) = item s \<or>
             item (snd (updatePalette e s i u)) =
               Some (JSON_stringify e (JArr (ps[k := updated_record e (clock_reads s) (ps ! k) u]))))"
    then obtain k where k:
      "clock_reads (snd (updatePalette e s i u)) = Suc (clock_reads s)"
      "item (snd (updatePalette e s i u)) = item s \<or>
       item (snd (updatePalette e s i u)) =
         Some (JSON_stringify e (JArr (ps[k := updated_record e (clock_reads s) (ps ! k) u])))"
      by blast
    have "stamped_before e (Suc (clock_reads s)) (ps[k := updated_record e (clock_reads s) (ps ! k) u])"
      using good
      by (rule stamped_update [where d = "clock_reads s"])
        (simp_all add: field_updated_record record_objects)
    with k show ?thesis
      by (intro stamps_inv_item [OF update.IH]) auto
  qed
next
  case (delete s i)
  from stamps_inv_read [OF lawful delete.IH] obtain ps where
    ps: "getSavedPalettes e s = JArr ps" and good: "stamped_before e (clock_reads s) ps" by blast
  from deletePalette_effect [OF ps, of i] good show ?case
    by (intro stamps_inv_item [OF delete.IH]) (auto intro: stamped_subset)
next
  case (import s t)
  from stamps_inv_read [OF lawful import.IH] obtain ps where
    ps: "getSavedPalettes e s = JArr ps" and good: "stamped_before e (clock_reads s) ps" by blast
  from importPalettes_effect [OF ps, of t] show ?case
  proof
    assume "snd (importPalettes e s t) = s"
    with import.IH show ?thesis by simp
  next
    assume "\<exists>rs. clock_reads (snd (importPalettes e s t)) = clock_reads s + 2 * length (filter acceptable rs) \<and>
               random_draws (snd (importPalettes e s t)) = random_draws s + length (filter acceptable rs) \<and>
               (item (snd (importPalettes e s t)) = item s \<or>
                item (snd (importPalettes e s t)) =
                  Some (JSON_stringify e (JArr (ps @ imported e (clock_reads s) (random_draws s) rs))))"
    then obtain rs where rs:
      "clock_reads (snd (importPalettes e s t)) = clock_reads s + 2 * length (filter acceptable rs)"
      "item (snd (importPalettes e s t)) = item s \<or>
       item (snd (importPalettes e s t)) =
         Some (JSON_stringify e (JArr (ps @ imported e (clock_reads s) (random_draws s) rs)))"
      by blast
    from stamped_imported [OF good, of rs "random_draws s"] rs show ?thesis
      by (intro stamps_inv_item [OF import.IH]) auto
  qed
next
  case (clear s)
  then show ?case
    by (auto simp: clearAllPalettes_def stamps_inv_def split: option.splits)
qed

lemma findIndex_id_first:
  assumes "\<forall>p\<in>set ps. p \<noteq> JNull" and "k < length ps"
    and "field (ps ! k) ''id'' = Some (JStr i)"
    and "\<forall>j<k. field (ps ! j) ''id'' \<noteq> Some (JStr i)"
  shows "findIndex_id ps i = Inr (Some k)"
  using assms
proof (induction ps arbitrary: k)
  case Nil
  then show ?case by simp
next
  case (Cons p ps)
  show ?case
  proof (cases k)
    case 0
    with Cons.prems show ?thesis by (simp add: id_is_field)
  next
    case (Suc m)
    with Cons.prems have head: "field p ''id'' \<noteq> Some (JStr i)" by auto
    from Suc Cons.prems have "m < length ps" "field (ps ! m) ''id'' = Some (JStr i)"
      "\<forall>j<m. field (ps ! j) ''id'' \<noteq> Some (JStr i)" "\<forall>p\<in>set ps. p \<noteq> JNull"
      by auto
    with Cons.IH have "findIndex_id ps i = Inr (Some m)" by blast
    with head Suc Cons.prems show ?thesis by (simp add: id_is_field)
  qed
qed

lemma updated_name_fields:
  assumes "p = JObj kv"
  shows "field (updated_record e c p [(''name'', v)]) ''createdAt'' = field p ''createdAt''"
    and "field (updated_record e c p [(''name'', v)]) ''name'' = Some v"
  using assms by (simp_all add: updated_record_def spread_def field_set_prop)

text \<open>
  C8. In a state the repository reaches from an empty storage, on a platform with lawful
  JSON functions and a clock that does not run backwards, let record \<open>k\<close> of the stored
  collection be the first with id \<open>i\<close>. After \<^verbatim>\<open>updatePalette(i, {name: X})\<close> the stored
  collection has the same length, every other record is unchanged, record \<open>k\<close> has the
  \<open>createdAt\<close> it had, and its \<open>updatedAt\<close> is the timestamp of an instant that is not
  before the instant of its previous \<open>updatedAt\<close>; when the update returns true, the
  name is \<open>X\<close> and \<open>updatedAt\<close> is the time of the update.
\<close>

theorem update_keeps_createdAt_and_advances_updatedAt:
  assumes lawful: "JSON_lawful e" and clock: "mono (Date_now e)" and reach: "reachable e s"
    and stored: "getSavedPalettes e s = JArr ps"
    and k: "k < length ps" and idk: "field (ps ! k) ''id'' = Some (JStr i)"
    and first: "\<forall>j<k. field (ps ! j) ''id'' \<noteq> Some (JStr i)"
  shows "\<exists>ps'. getSavedPalettes e (snd (updatePalette e s i [(''name'', JStr X)])) = JArr ps' \<and>
           length ps' = length ps \<and>
           (\<forall>j<length ps. j \<noteq> k \<longrightarrow> ps' ! j = ps ! j) \<and>
           field (ps' ! k) ''createdAt'' = field (ps ! k) ''createdAt'' \<and>
           (\<exists>t t'. field (ps ! k) ''updatedAt'' = Some (JStr (toISOString e t)) \<and>
                   field (ps' ! k) ''updatedAt'' = Some (JStr (toISOString e t')) \<and> t \<le> t') \<and>
           (fst (updatePalette e s i [(''name'', JStr X)]) = Inr True \<longrightarrow>
              field (ps' ! k) ''name'' = Some (JStr X) \<and>
              field (ps' ! k) ''updatedAt'' =
                Some (JStr (toISOString e (Date_now e (clock_reads s)))))"
proof -
  let ?u = "[(''name'', JStr X)]"
  let ?new = "updated_record e (clock_reads s) (ps ! k) ?u"
  let ?text = "JSON_stringify e (JArr (ps[k := ?new]))"
  from reachable_stamps [OF lawful reach] have inv: "stamps_inv e s" .
  from stamps_inv_read [OF lawful inv] stored
  have good: "stamped_before e (clock_reads s) ps" by auto
  from k have mem: "ps ! k \<in> set ps" by simp
  with good obtain kv c' where obj: "ps ! k = JObj kv" and c': "c' < clock_reads s"
    and old: "field (ps ! k) ''updatedAt'' = Some (JStr (toISOString e (Date_now e c')))"
    by (auto simp: stamped_before_def)
  from good have nonull: "\<forall>p\<in>set ps. p \<noteq> JNull"
    by (auto simp: stamped_before_def)
  from findIndex_id_first [OF nonull k idk first]
  have found: "findIndex_id ps i = Inr (Some k)" .
  note upd = updatePalette_found [OF stored found, of ?u]
  from k stored have win: "window_defined e"
    by (auto simp: getSavedPalettes_def split: if_splits)
  from clock c' have le: "Date_now e c' \<le> Date_now e (clock_reads s)"
    by (simp add: monoD)
  show ?thesis
  proof (cases "setItem_throws e ?text")
    case None
    with upd have res: "fst (updatePalette e s i ?u) = Inr True"
      and it: "item (snd (updatePalette e s i ?u)) = Some ?text"
      by simp_all
    from lawful win it have rd: "getSavedPalettes e (snd (updatePalette e s i ?u)) = JArr (ps[k := ?new])"
      by (rule stored_read)
    have "field ((ps[k := ?new]) ! k) ''updatedAt'' = Some (JStr (toISOString e (Date_now e (clock_reads s))))"
      using k by (simp add: field_updated_record)
    moreover have "field ((ps[k := ?new]) ! k) ''createdAt'' = field (ps ! k) ''createdAt''"
      and "field ((ps[k := ?new]) ! k) ''name'' = Some (JStr X)"
      using k by (simp_all add: updated_name_fields [OF obj])
    ultimately show ?thesis
      using rd old le by (intro exI [of _ "ps[k := ?new]"]) auto
  next
    case (Some ex)
    with upd have res: "fst (updatePalette e s i ?u) = Inr False"
      and it: "item (snd (updatePalette e s i ?u)) = item s"
      by simp_all
    have "getSavedPalettes e (snd (updatePalette e s i ?u)) = getSavedPalettes e s"
      using it by (simp add: getSavedPalettes_def)
    with stored have rd: "getSavedPalettes e (snd (updatePalette e s i ?u)) = JArr ps"
      by simp
    from rd res old show ?thesis
      by (intro exI [of _ ps]) auto
  qed
qed

lemma one_saved_state:
  "one_saved =
     \<lparr>item = Some (JSON_stringify ref_env (JArr [saved_record ref_env 0 0 one_draft])),
      clock_reads = 2, random_draws = 1, setItem_calls = 1\<rparr>"
proof -
  have g0: "getSavedPalettes ref_env empty_state = JArr []"
    by (simp add: empty_read empty_state_def)
  have w: "\<And>v. setItem_throws ref_env v = None"
    by (simp add: ref_env_def)
  show ?thesis
    unfolding one_saved_def
    by (simp add: savePalette_array [OF g0] w) (simp add: empty_state_def)
qed

lemma one_saved_read:
  "getSavedPalettes ref_env one_saved = JArr [saved_record ref_env 0 0 one_draft]"
  using ref_env_lawful
  by (rule stored_read) (simp_all add: one_saved_state, simp add: ref_env_def)

lemma one_saved_reachable: "reachable ref_env one_saved"
  unfolding one_saved_def
  by (rule reachable.save, rule reachable.initial) (simp add: empty_state_def)

lemma ref_env_clock: "mono (Date_now ref_env)"
  by (simp add: ref_env_def mono_def)

theorem update_keeps_createdAt_and_advances_updatedAt_witness:
  "reachable ref_env one_saved \<and>
   getSavedPalettes ref_env one_saved = JArr [saved_record ref_env 0 0 one_draft] \<and>
   field (saved_record ref_env 0 0 one_draft) ''id'' = Some (JStr (generated_id ref_env 0 0)) \<and>
   field (saved_record ref_env 0 0 one_draft) ''updatedAt'' =
     Some (JStr (toISOString ref_env (Date_now ref_env 1))) \<and>
   fst (updatePalette ref_env one_saved (generated_id ref_env 0 0) [(''name'', JStr ''X'')]) = Inr True \<and>
   (\<exists>ps'. getSavedPalettes ref_env
            (snd (updatePalette ref_env one_saved (generated_id ref_env 0 0) [(''name'', JStr ''X'')])) =
          JArr ps' \<and> length ps' = 1 \<and>
          field (ps' ! 0) ''createdAt'' = field (saved_record ref_env 0 0 one_draft) ''createdAt'' \<and>
          field (ps' ! 0) ''name'' = Some (JStr ''X'') \<and>
          field (ps' ! 0) ''updatedAt'' = Some (JStr (toISOString ref_env (Date_now ref_env 2)))) \<and>
   Date_now ref_env 1 \<le> Date_now ref_env 2"
proof -
  let ?R = "saved_record ref_env 0 0 one_draft"
  let ?i = "generated_id ref_env 0 0"
  have k: "0 < length [?R]" by simp
  have idk: "field ([?R] ! 0) ''id'' = Some (JStr ?i)"
    by (simp add: field_saved_record)
  have first: "\<forall>j<0. field ([?R] ! j) ''id'' \<noteq> Some (JStr ?i)"
    by simp
  have found: "findIndex_id [?R] ?i = Inr (Some 0)"
    by (simp add: id_is_def saved_record_def field_set_prop [unfolded field_def, simplified] set_prop_def update_conv')
  have w: "\<And>v. setItem_throws ref_env v = None"
    by (simp add: ref_env_def)
  have ok: "fst (updatePalette ref_env one_saved ?i [(''name'', JStr ''X'')]) = Inr True"
    by (simp add: updatePalette_found [OF one_saved_read found] w)
  have c: "clock_reads one_saved = 2"
    by (simp add: one_saved_state)
  have le: "Date_now ref_env 1 \<le> Date_now ref_env 2"
    by (simp add: ref_env_def)
  from update_keeps_createdAt_and_advances_updatedAt
    [OF ref_env_lawful ref_env_clock one_saved_reachable one_saved_read k idk first, of "''X''"]
    one_saved_reachable one_saved_read idk ok c le
  show ?thesis
    by (auto simp: field_saved_record)
qed

end
